theory Spec2Isabelle
  imports
    Complex_Main
    "HOL-Library.Word"
    "HOL-Library.Char_ord"
    "HOL-Library.List_Lexorder"
    "HOL-Library.Monad_Syntax"
begin

unbundle bit_operations_syntax

section \<open>The Value model (Value.hpp, Value.cpp)\<close>

subsection \<open>Doubles\<close>

text \<open>
  The payload \<^verbatim>\<open>double mDouble\<close>. A finite double is represented by its exact rational
  value; the model admits every rational, so a statement about all \<open>Finite r\<close> covers
  every finite double. Only the operations the conversions use are modelled: the IEEE
  comparisons (false as soon as one side is NaN) and the C++ conversion to an integer
  type, which truncates towards zero and is undefined when the truncated value does not
  fit the destination.
\<close>

datatype double = NaN | NegInf | PosInf | Finite rat

fun double_lt :: "double \<Rightarrow> double \<Rightarrow> bool" where
  "double_lt NaN _ = False"
| "double_lt _ NaN = False"
| "double_lt NegInf NegInf = False"
| "double_lt NegInf _ = True"
| "double_lt _ NegInf = False"
| "double_lt PosInf _ = False"
| "double_lt (Finite a) PosInf = True"
| "double_lt (Finite a) (Finite b) = (a < b)"

definition double_gt :: "double \<Rightarrow> double \<Rightarrow> bool" where
  "double_gt a b = double_lt b a"

fun double_le :: "double \<Rightarrow> double \<Rightarrow> bool" where
  "double_le NaN _ = False"
| "double_le _ NaN = False"
| "double_le NegInf _ = True"
| "double_le _ PosInf = True"
| "double_le PosInf _ = False"
| "double_le (Finite a) NegInf = False"
| "double_le (Finite a) (Finite b) = (a \<le> b)"

definition double_ge :: "double \<Rightarrow> double \<Rightarrow> bool" where
  "double_ge a b = double_le b a"

text \<open>Rounding towards zero, as the C++ floating-integral conversion does.\<close>

definition trunc :: "rat \<Rightarrow> int" where
  "trunc r = (if 0 \<le> r then \<lfloor>r\<rfloor> else \<lceil>r\<rceil>)"

text \<open>
  Undefined behaviour is a value of the model: a conversion of a double whose truncation
  is outside the destination type, a read past the end of an array payload, a
  dereference of a null payload pointer.
\<close>

datatype undefined_behaviour = FloatToIntOutOfRange | ArrayIndexOutOfRange | NullPointerDereference

text \<open>\<^verbatim>\<open>T(mDouble)\<close> for an integer type with the values \<open>lo .. hi\<close>.\<close>

definition double_to_int :: "int \<Rightarrow> int \<Rightarrow> double \<Rightarrow> undefined_behaviour + int" where
  "double_to_int lo hi d =
     (case d of
        Finite r \<Rightarrow> if lo \<le> trunc r \<and> trunc r \<le> hi then Inr (trunc r) else Inl FloatToIntOutOfRange
      | _ \<Rightarrow> Inl FloatToIntOutOfRange)"

subsection \<open>Limits\<close>

definition INT32_MIN :: int where "INT32_MIN = - (2 ^ 31)"
definition INT32_MAX :: int where "INT32_MAX = 2 ^ 31 - 1"
definition UINT32_MAX :: int where "UINT32_MAX = 2 ^ 32 - 1"
definition INT64_MIN :: int where "INT64_MIN = - (2 ^ 63)"
definition INT64_MAX :: int where "INT64_MAX = 2 ^ 63 - 1"
definition UINT64_MAX :: int where "UINT64_MAX = 2 ^ 64 - 1"

text \<open>
  \<^verbatim>\<open>double(c)\<close> of an integer constant. The 32-bit limits and \<open>INT64_MIN\<close> are exactly
  representable. \<open>INT64_MAX = 2^63 - 1\<close> and \<open>UINT64_MAX = 2^64 - 1\<close> need more than the 53
  bits of a double's significand; rounding to nearest gives \<open>2^63\<close> and \<open>2^64\<close>.
\<close>

definition double_of_const :: "int \<Rightarrow> double" where
  "double_of_const c =
     (if c = INT64_MAX then Finite (2 ^ 63)
      else if c = UINT64_MAX then Finite (2 ^ 64)
      else Finite (of_int c))"

subsection \<open>Values\<close>

datatype ValueType =
    kValueNull | kValueBool | kValueInt | kValueUInt | kValueInt64 | kValueUInt64
  | kValueDouble | kValueString | kValueArray | kValueObject

text \<open>
  An object payload: \<^verbatim>\<open>vector_map<AutoRef<StringValue>, Value> mMap\<close>, a vector of
  key/value pairs kept sorted by \<^verbatim>\<open>strcmp\<close> on the key, and \<^verbatim>\<open>uint32_t mModCount\<close>.
\<close>

datatype 'v ObjectPayload = ObjectPayload (mMap: "(string \<times> 'v) list") (mModCount: "32 word")

text \<open>
  The tagged union. The signed payloads are words read with \<open>sint\<close>, the unsigned ones
  with \<open>uint\<close>. String and array payloads are pointers that may be null
  (\<^verbatim>\<open>Value(kValueString)\<close>, \<^verbatim>\<open>ToArray()\<close>); an object payload is never null.
\<close>

datatype Value =
    VNull
  | VBool bool
  | VInt "32 word"
  | VUInt "32 word"
  | VInt64 "64 word"
  | VUInt64 "64 word"
  | VDouble double
  | VString "string option"
  | VArray "Value list option"
  | VObject "Value ObjectPayload"

type_synonym ObjectValue = "Value ObjectPayload"

fun Type :: "Value \<Rightarrow> ValueType" where
  "Type VNull = kValueNull"
| "Type (VBool _) = kValueBool"
| "Type (VInt _) = kValueInt"
| "Type (VUInt _) = kValueUInt"
| "Type (VInt64 _) = kValueInt64"
| "Type (VUInt64 _) = kValueUInt64"
| "Type (VDouble _) = kValueDouble"
| "Type (VString _) = kValueString"
| "Type (VArray _) = kValueArray"
| "Type (VObject _) = kValueObject"

definition IsNull :: "Value \<Rightarrow> bool" where "IsNull v = (Type v = kValueNull)"
definition IsArray :: "Value \<Rightarrow> bool" where "IsArray v = (Type v = kValueArray)"
definition IsObject :: "Value \<Rightarrow> bool" where "IsObject v = (Type v = kValueObject)"


subsection \<open>Value::IsConvertibleTo\<close>

text \<open>
  The C++ cast \<^verbatim>\<open>(unsigned) c\<close>: the constant reduced to the 32 bits of \<^verbatim>\<open>unsigned int\<close>.
\<close>

definition unsigned_cast :: "int \<Rightarrow> int" where
  "unsigned_cast c = c mod 2 ^ 32"

fun IsConvertibleTo :: "Value \<Rightarrow> ValueType \<Rightarrow> bool" where
  "IsConvertibleTo VNull other = True"
| "IsConvertibleTo (VBool b) other =
     (False
      \<or> other = kValueBool
      \<or> other = kValueInt
      \<or> other = kValueUInt
      \<or> other = kValueInt64
      \<or> other = kValueUInt64
      \<or> other = kValueDouble)"
| "IsConvertibleTo (VInt i) other =
     (False
      \<or> other = kValueBool
      \<or> other = kValueInt
      \<or> (other = kValueUInt \<and> sint i \<ge> 0)
      \<or> other = kValueInt64
      \<or> (other = kValueUInt64 \<and> sint i \<ge> 0)
      \<or> other = kValueDouble)"
| "IsConvertibleTo (VUInt u) other =
     (False
      \<or> other = kValueBool
      \<or> (other = kValueInt \<and> uint u \<le> unsigned_cast INT32_MAX)
      \<or> other = kValueUInt
      \<or> other = kValueInt64
      \<or> other = kValueUInt64
      \<or> other = kValueDouble)"
| "IsConvertibleTo (VInt64 i) other =
     (False
      \<or> other = kValueBool
      \<or> (other = kValueInt \<and> sint i \<ge> INT32_MIN \<and> sint i \<le> INT32_MAX)
      \<or> (other = kValueUInt \<and> sint i \<ge> 0 \<and> sint i \<le> UINT32_MAX)
      \<or> other = kValueInt64
      \<or> (other = kValueUInt64 \<and> sint i \<ge> 0)
      \<or> other = kValueDouble)"
| "IsConvertibleTo (VUInt64 u) other =
     (False
      \<or> other = kValueBool
      \<or> (other = kValueInt \<and> uint u \<le> unsigned_cast INT32_MAX)
      \<or> (other = kValueUInt \<and> uint u \<le> UINT32_MAX)
      \<or> (other = kValueInt64 \<and> uint u \<le> unsigned_cast INT64_MAX)
      \<or> other = kValueUInt64
      \<or> other = kValueDouble)"
| "IsConvertibleTo (VDouble d) other =
     (False
      \<or> other = kValueBool
      \<or> (other = kValueInt \<and> double_ge d (double_of_const INT32_MIN) \<and> double_le d (double_of_const INT32_MAX))
      \<or> (other = kValueUInt \<and> double_ge d (double_of_const 0) \<and> double_le d (double_of_const UINT32_MAX))
      \<or> (other = kValueInt64 \<and> double_ge d (double_of_const INT64_MIN) \<and> double_le d (double_of_const INT64_MAX))
      \<or> (other = kValueUInt64 \<and> double_ge d (double_of_const 0) \<and> double_le d (double_of_const UINT64_MAX))
      \<or> other = kValueDouble)"
| "IsConvertibleTo (VString s) other =
     (False
      \<or> other = kValueBool
      \<or> other = kValueString)"
| "IsConvertibleTo (VArray a) other =
     (False
      \<or> other = kValueBool
      \<or> other = kValueArray)"
| "IsConvertibleTo (VObject ob) other =
     (False
      \<or> other = kValueBool
      \<or> other = kValueObject)"

subsection \<open>Value::AsInt, AsUInt, AsInt64, AsUInt64\<close>

text \<open>
  Each comparison is made in the type the usual arithmetic conversions give it: a
  \<^verbatim>\<open>uint32_t\<close> or \<^verbatim>\<open>uint64_t\<close> payload against a limit is unsigned, an \<^verbatim>\<open>int64_t\<close> payload
  against \<open>INT32_MAX\<close>, \<open>INT32_MIN\<close> or \<open>UINT32_MAX\<close> is a 64-bit signed comparison. The
  narrowing conversions on the last line of a case are reached with a value the
  destination holds; they are written \<open>word_of_int\<close> of the payload's value.
\<close>

fun AsInt :: "Value \<Rightarrow> 32 word \<Rightarrow> undefined_behaviour + 32 word" where
  "AsInt (VBool b) defaultValue = Inr (if b then 1 else 0)"
| "AsInt (VInt i) defaultValue = Inr i"
| "AsInt (VUInt u) defaultValue =
     (if uint u > INT32_MAX then Inr (word_of_int INT32_MAX)
      else Inr u)"
| "AsInt (VInt64 i) defaultValue =
     (if sint i > INT32_MAX then Inr (word_of_int INT32_MAX)
      else if sint i < INT32_MIN then Inr (word_of_int INT32_MIN)
      else Inr (word_of_int (sint i)))"
| "AsInt (VUInt64 u) defaultValue =
     (if uint u > INT32_MAX then Inr (word_of_int INT32_MAX)
      else Inr (word_of_int (uint u)))"
| "AsInt (VDouble d) defaultValue =
     (if double_lt d (double_of_const INT32_MIN) then Inr (word_of_int INT32_MIN)
      else if double_gt d (double_of_const INT32_MAX) then Inr (word_of_int INT32_MAX)
      else map_sum id word_of_int (double_to_int INT32_MIN INT32_MAX d))"
| "AsInt _ defaultValue = Inr defaultValue"

fun AsUInt :: "Value \<Rightarrow> 32 word \<Rightarrow> undefined_behaviour + 32 word" where
  "AsUInt (VBool b) defaultValue = Inr (if b then 1 else 0)"
| "AsUInt (VInt i) defaultValue =
     (if sint i < 0 then Inr 0
      else Inr i)"
| "AsUInt (VUInt u) defaultValue = Inr u"
| "AsUInt (VInt64 i) defaultValue =
     (if sint i > UINT32_MAX then Inr (word_of_int UINT32_MAX)
      else if sint i < 0 then Inr 0
      else Inr (word_of_int (sint i)))"
| "AsUInt (VUInt64 u) defaultValue =
     (if uint u > UINT32_MAX then Inr (word_of_int UINT32_MAX)
      else Inr (word_of_int (uint u)))"
| "AsUInt (VDouble d) defaultValue =
     (if double_lt d (Finite 0) then Inr 0
      else if double_gt d (double_of_const UINT32_MAX) then Inr (word_of_int UINT32_MAX)
      else map_sum id word_of_int (double_to_int 0 UINT32_MAX d))"
| "AsUInt _ defaultValue = Inr defaultValue"

fun AsInt64 :: "Value \<Rightarrow> 64 word \<Rightarrow> undefined_behaviour + 64 word" where
  "AsInt64 (VBool b) defaultValue = Inr (if b then 1 else 0)"
| "AsInt64 (VInt i) defaultValue = Inr (word_of_int (sint i))"
| "AsInt64 (VUInt u) defaultValue = Inr (word_of_int (uint u))"
| "AsInt64 (VInt64 i) defaultValue = Inr i"
| "AsInt64 (VUInt64 u) defaultValue =
     (if uint u > INT64_MAX then Inr (word_of_int INT64_MAX)
      else Inr u)"
| "AsInt64 (VDouble d) defaultValue =
     (if double_lt d (double_of_const INT64_MIN) then Inr (word_of_int INT64_MIN)
      else if double_gt d (double_of_const INT64_MAX) then Inr (word_of_int INT64_MAX)
      else map_sum id word_of_int (double_to_int INT64_MIN INT64_MAX d))"
| "AsInt64 _ defaultValue = Inr defaultValue"

fun AsUInt64 :: "Value \<Rightarrow> 64 word \<Rightarrow> undefined_behaviour + 64 word" where
  "AsUInt64 (VBool b) defaultValue = Inr (if b then 1 else 0)"
| "AsUInt64 (VInt i) defaultValue =
     (if sint i < 0 then Inr 0
      else Inr (word_of_int (sint i)))"
| "AsUInt64 (VUInt u) defaultValue = Inr (word_of_int (uint u))"
| "AsUInt64 (VInt64 i) defaultValue =
     (if sint i < 0 then Inr 0
      else Inr i)"
| "AsUInt64 (VUInt64 u) defaultValue = Inr u"
| "AsUInt64 (VDouble d) defaultValue =
     (if double_lt d (Finite 0) then Inr 0
      else if double_gt d (double_of_const UINT64_MAX) then Inr (word_of_int UINT64_MAX)
      else map_sum id word_of_int (double_to_int 0 UINT64_MAX d))"
| "AsUInt64 _ defaultValue = Inr defaultValue"


subsection \<open>Value::Elt and Value::NumElts\<close>

definition kNullValue :: Value where
  "kNullValue = VNull"

text \<open>
  \<^verbatim>\<open>const Value& Value::Elt(int index) const\<close>: for an array the result is
  \<^verbatim>\<open>(*mValue.mArray)[index]\<close>, that is \<^verbatim>\<open>data[index]\<close> of the payload, with no test of
  the pointer and none of the index. The payload holds \<open>count\<close> elements, so an index
  outside \<open>0 ..< count\<close> reads outside it.
\<close>

definition Elt :: "Value \<Rightarrow> int \<Rightarrow> undefined_behaviour + Value" where
  "Elt v index =
     (case v of
        VArray mArray \<Rightarrow>
          (case mArray of
             None \<Rightarrow> Inl NullPointerDereference
           | Some data \<Rightarrow>
               if 0 \<le> index \<and> index < int (length data) then Inr (data ! nat index)
               else Inl ArrayIndexOutOfRange)
      | _ \<Rightarrow> Inr kNullValue)"

definition NumElts :: "Value \<Rightarrow> int" where
  "NumElts v =
     (case v of
        VArray mArray \<Rightarrow> (case mArray of None \<Rightarrow> 0 | Some data \<Rightarrow> int (length data))
      | _ \<Rightarrow> 0)"

subsection \<open>Reading a coercion back\<close>

text \<open>
  The number a value of a numeric kind stands for, and the statement that the coercion to
  an integer kind \<open>K\<close> returns that number: the words "As<Kind>() returns the source value
  unchanged" of the convertibility property. \<open>As_integer\<close> selects the coercion of the
  kind and reads its result as an integer.
\<close>

fun numeric_value :: "Value \<Rightarrow> rat option" where
  "numeric_value (VBool b) = Some (if b then 1 else 0)"
| "numeric_value (VInt i) = Some (of_int (sint i))"
| "numeric_value (VUInt u) = Some (of_int (uint u))"
| "numeric_value (VInt64 i) = Some (of_int (sint i))"
| "numeric_value (VUInt64 u) = Some (of_int (uint u))"
| "numeric_value (VDouble (Finite r)) = Some r"
| "numeric_value _ = None"

fun As_integer :: "ValueType \<Rightarrow> Value \<Rightarrow> (undefined_behaviour + int) option" where
  "As_integer kValueInt v = Some (map_sum id sint (AsInt v 0))"
| "As_integer kValueUInt v = Some (map_sum id uint (AsUInt v 0))"
| "As_integer kValueInt64 v = Some (map_sum id sint (AsInt64 v 0))"
| "As_integer kValueUInt64 v = Some (map_sum id uint (AsUInt64 v 0))"
| "As_integer _ v = None"

definition returns_unchanged :: "Value \<Rightarrow> ValueType \<Rightarrow> bool" where
  "returns_unchanged v K =
     (case As_integer K v of
        Some (Inr n) \<Rightarrow> numeric_value v = Some (of_int n)
      | _ \<Rightarrow> False)"

subsection \<open>vector_map (vector_map.hpp)\<close>

text \<open>
  The member map is a \<^verbatim>\<open>std::vector\<close> of key/value pairs, ordered by
  \<^verbatim>\<open>MemberMapEqual\<close>, which is \<^verbatim>\<open>strcmp(a, b) < 0\<close>: the lexicographic order of the
  keys' bytes, the order of \<open>string\<close> here. Every lookup starts with
  \<^verbatim>\<open>lower_bound(begin(), end(), key, less)\<close>, whose result on a sorted vector is the
  position of the first pair whose key is not less than \<open>key\<close>. An iterator is an index,
  \<^verbatim>\<open>end()\<close> the length.
\<close>

definition lower_bound :: "(string \<times> 'v) list \<Rightarrow> string \<Rightarrow> nat" where
  "lower_bound m key = length (takeWhile (\<lambda>kv. fst kv < key) m)"

definition find_key :: "(string \<times> 'v) list \<Rightarrow> string \<Rightarrow> nat" where
  "find_key m key =
     (let it = lower_bound m key in
      if it \<noteq> length m \<and> \<not> key < fst (m ! it) then it else length m)"

text \<open>\<^verbatim>\<open>insert(key_and_value)\<close>: the new vector, the iterator and whether a pair was added.\<close>

definition insert_kv :: "(string \<times> 'v) list \<Rightarrow> string \<times> 'v \<Rightarrow> (string \<times> 'v) list \<times> nat \<times> bool" where
  "insert_kv m key_and_value =
     (let it = lower_bound m (fst key_and_value) in
      if it \<noteq> length m \<and> \<not> fst key_and_value < fst (m ! it) then (m, it, False)
      else (take it m @ key_and_value # drop it m, it, True))"

text \<open>\<^verbatim>\<open>std::vector::erase(it)\<close>.\<close>

definition erase_at :: "'a list \<Rightarrow> nat \<Rightarrow> 'a list" where
  "erase_at m it = take it m @ drop (Suc it) m"

subsection \<open>ObjectValue\<close>


definition MemberPtr :: "string \<Rightarrow> ObjectValue \<Rightarrow> Value option" where
  "MemberPtr key ob =
     (let it = find_key (mMap ob) key in
      if it \<noteq> length (mMap ob) then Some (snd (mMap ob ! it)) else None)"

definition HasMember :: "string \<Rightarrow> ObjectValue \<Rightarrow> bool" where
  "HasMember key ob = (if find_key (mMap ob) key \<noteq> length (mMap ob) then True else False)"

definition NumMembers :: "ObjectValue \<Rightarrow> nat" where
  "NumMembers ob = length (mMap ob)"

text \<open>
  \<^verbatim>\<open>Value& ObjectValue::UpdateMember(ValueKey key, StringTable* st)\<close>. The counter is
  incremented first; then the member is looked up and, when absent, \<^verbatim>\<open>mMap[key]\<close>
  inserts a null Value under a new key string. The reference returned is the position
  of the member in the updated object.
\<close>

definition UpdateMember :: "string \<Rightarrow> ObjectValue \<Rightarrow> ObjectValue \<times> nat" where
  "UpdateMember key ob =
     (let mModCount' = mModCount ob + 1;
          it = find_key (mMap ob) key in
      if it \<noteq> length (mMap ob) then (ObjectPayload (mMap ob) mModCount', it)
      else (case insert_kv (mMap ob) (key, VNull) of
              (mMap', it', added) \<Rightarrow> (ObjectPayload mMap' mModCount', it')))"

text \<open>A write through a reference to the member at position \<open>it\<close>.\<close>

definition store_member :: "ObjectValue \<Rightarrow> nat \<Rightarrow> Value \<Rightarrow> ObjectValue" where
  "store_member ob it v = ObjectPayload ((mMap ob)[it := (fst (mMap ob ! it), v)]) (mModCount ob)"

text \<open>\<^verbatim>\<open>ObjectValue::Swap\<close>: the maps are exchanged and both counters incremented.\<close>

definition ObjectValue_Swap :: "ObjectValue \<Rightarrow> ObjectValue \<Rightarrow> ObjectValue \<times> ObjectValue" where
  "ObjectValue_Swap this other =
     (ObjectPayload (mMap other) (mModCount this + 1),
      ObjectPayload (mMap this) (mModCount other + 1))"

text \<open>
  \<^verbatim>\<open>Value::operator=(const Value& other)\<close> is \<^verbatim>\<open>Value temp(other); Swap(temp);\<close>. The
  copy \<open>temp\<close> of an object is a new payload with the same members and counter. When both
  sides are objects, \<^verbatim>\<open>Value::Swap\<close> swaps the contents of the two payloads, "to preserve
  mod counts": the target keeps its payload, which takes the members of the copy and
  counts one modification. Otherwise the target takes the payload of the copy.
\<close>

definition Value_assign :: "Value \<Rightarrow> Value \<Rightarrow> Value" where
  "Value_assign this other =
     (case (this, other) of
        (VObject mObject, VObject temp) \<Rightarrow> VObject (fst (ObjectValue_Swap mObject temp))
      | _ \<Rightarrow> other)"

definition SetMember :: "string \<Rightarrow> Value \<Rightarrow> ObjectValue \<Rightarrow> ObjectValue" where
  "SetMember key v ob =
     (case UpdateMember key ob of
        (ob1, it) \<Rightarrow>
          let ob2 = store_member ob1 it (Value_assign (snd (mMap ob1 ! it)) v)
          in ObjectPayload (mMap ob2) (mModCount ob2 + 1))"

definition RemoveMember :: "string \<Rightarrow> ObjectValue \<Rightarrow> ObjectValue \<times> bool" where
  "RemoveMember key ob =
     (let it = find_key (mMap ob) key in
      if it = length (mMap ob) then (ob, False)
      else (ObjectPayload (erase_at (mMap ob) it) (mModCount ob + 1), True))"

text \<open>
  \<^verbatim>\<open>Value::Merge\<close> and \<^verbatim>\<open>ObjectValue::Merge\<close>. The loop of the latter runs over the members
  of \<open>overrides\<close> in their order; \<open>MergeMembers\<close> is the loop on the members left. The
  target and \<open>overrides\<close> are distinct objects.
\<close>

fun Merge :: "Value \<Rightarrow> Value \<Rightarrow> Value"
  and MergeMembers :: "ObjectValue \<Rightarrow> (string \<times> Value) list \<Rightarrow> ObjectValue" where
  "Merge this VNull = this"
| "Merge (VObject mObject) (VObject (ObjectPayload overrides n)) =
     VObject (MergeMembers mObject overrides)"
| "Merge this overrides = Value_assign this overrides"
| "MergeMembers ob [] = ob"
| "MergeMembers ob (nv # rest) =
     MergeMembers
       (if IsNull (snd nv) then fst (RemoveMember (fst nv) ob)
        else (case UpdateMember (fst nv) ob of
                (ob1, it) \<Rightarrow> store_member ob1 it (Merge (snd (mMap ob1 ! it)) (snd nv))))
       rest"

definition ObjectValue_Merge :: "ObjectValue \<Rightarrow> ObjectValue \<Rightarrow> ObjectValue" where
  "ObjectValue_Merge ob overrides = MergeMembers ob (mMap overrides)"


text \<open>The invariant of the member map: the keys are strictly increasing.\<close>

definition sorted_keys :: "(string \<times> 'v) list \<Rightarrow> bool" where
  "sorted_keys m = sorted_wrt (<) (map fst m)"

text \<open>The body of the loop of \<^verbatim>\<open>ObjectValue::Merge\<close> for one member of \<open>overrides\<close>.\<close>

definition merge_step :: "ObjectValue \<Rightarrow> string \<times> Value \<Rightarrow> ObjectValue" where
  "merge_step ob nv =
     (if IsNull (snd nv) then fst (RemoveMember (fst nv) ob)
      else (case UpdateMember (fst nv) ob of
              (ob1, it) \<Rightarrow> store_member ob1 it (Merge (snd (mMap ob1 ! it)) (snd nv))))"

subsection \<open>Object payloads on the heap\<close>

text \<open>
  A Value of type object holds a pointer \<^verbatim>\<open>ObjectValue* mObject\<close>. To state what a copy
  shares, the payloads of the Values under consideration live in a store: the list of
  the payloads allocated so far, a pointer being an index, and \<^verbatim>\<open>new ObjectValue\<close>
  appending. The members inside a payload stay values: \<^verbatim>\<open>ObjectValue\<close>'s implicit copy
  constructor copies \<open>mMap\<close> element by element with the copy constructor of Value, so
  the object members of a copy are copies in turn.
\<close>

type_synonym heap = "ObjectValue list"

definition new_ObjectValue :: "heap \<Rightarrow> ObjectValue \<Rightarrow> heap \<times> nat" where
  "new_ObjectValue h ob = (h @ [ob], length h)"

text \<open>
  \<^verbatim>\<open>Value::Value(const Value& other)\<close>, case \<open>kValueObject\<close>:
  \<^verbatim>\<open>mValue.mObject = new ObjectValue(*other.mValue.mObject)\<close>. The copy constructor of
  \<^verbatim>\<open>RefCountedT\<close> leaves the reference count at 0; \<open>mMap\<close> and \<open>mModCount\<close> are copied.
\<close>

definition Value_copy_object :: "heap \<Rightarrow> nat \<Rightarrow> heap \<times> nat" where
  "Value_copy_object h other = new_ObjectValue h (ObjectPayload (mMap (h ! other)) (mModCount (h ! other)))"

text \<open>\<^verbatim>\<open>Value::Value(ObjectValue* value)\<close>: "Adds a reference to 'value' rather than copying."\<close>

definition Value_share_object :: "heap \<Rightarrow> nat \<Rightarrow> heap \<times> nat" where
  "Value_share_object h value = (h, value)"

text \<open>
  \<^verbatim>\<open>Value::SetMember\<close>, \<^verbatim>\<open>Value::RemoveMember\<close> and \<^verbatim>\<open>Value::UpdateMember\<close> on a Value of
  type object: the call on \<open>*mValue.mObject\<close>.
\<close>

definition Value_SetMember :: "heap \<Rightarrow> nat \<Rightarrow> string \<Rightarrow> Value \<Rightarrow> heap" where
  "Value_SetMember h mObject key v = h[mObject := SetMember key v (h ! mObject)]"

definition Value_RemoveMember :: "heap \<Rightarrow> nat \<Rightarrow> string \<Rightarrow> heap \<times> bool" where
  "Value_RemoveMember h mObject key =
     (case RemoveMember key (h ! mObject) of (ob, removed) \<Rightarrow> (h[mObject := ob], removed))"

definition Value_UpdateMember :: "heap \<Rightarrow> nat \<Rightarrow> string \<Rightarrow> heap \<times> nat" where
  "Value_UpdateMember h mObject key =
     (case UpdateMember key (h ! mObject) of (ob, it) \<Rightarrow> (h[mObject := ob], it))"

text \<open>A sequence of member insertions, replacements and removals on one Value.\<close>

datatype mutation = Insert_or_replace string Value | Remove string | Update string

fun mutate :: "heap \<Rightarrow> nat \<Rightarrow> mutation \<Rightarrow> heap" where
  "mutate h mObject (Insert_or_replace key v) = Value_SetMember h mObject key v"
| "mutate h mObject (Remove key) = fst (Value_RemoveMember h mObject key)"
| "mutate h mObject (Update key) = fst (Value_UpdateMember h mObject key)"

fun mutations :: "heap \<Rightarrow> nat \<Rightarrow> mutation list \<Rightarrow> heap" where
  "mutations h mObject [] = h"
| "mutations h mObject (m # ms) = mutations (mutate h mObject m) mObject ms"

section \<open>The YAML parser: directives (cut-down libyaml)\<close>

text \<open>
  Modelled from the spec: \<^verbatim>\<open>yaml.h\<close>, which declares the token, event and error types, is
  not among the sources. The token alphabet is the one of the scanner's contract
  (STREAM-START, ..., SCALAR), under the names the parser uses
  (\<^verbatim>\<open>YAML_VERSION_DIRECTIVE_TOKEN\<close>, ...); marks are left out.
\<close>

datatype yaml_scalar_style_t =
    YAML_PLAIN_SCALAR_STYLE | YAML_SINGLE_QUOTED_SCALAR_STYLE | YAML_DOUBLE_QUOTED_SCALAR_STYLE
  | YAML_LITERAL_SCALAR_STYLE | YAML_FOLDED_SCALAR_STYLE

datatype yaml_token_t =
    YAML_STREAM_START_TOKEN
  | YAML_STREAM_END_TOKEN
  | YAML_VERSION_DIRECTIVE_TOKEN int int
  | YAML_TAG_DIRECTIVE_TOKEN string string
  | YAML_DOCUMENT_START_TOKEN
  | YAML_DOCUMENT_END_TOKEN
  | YAML_BLOCK_SEQUENCE_START_TOKEN
  | YAML_BLOCK_MAPPING_START_TOKEN
  | YAML_BLOCK_END_TOKEN
  | YAML_FLOW_SEQUENCE_START_TOKEN
  | YAML_FLOW_SEQUENCE_END_TOKEN
  | YAML_FLOW_MAPPING_START_TOKEN
  | YAML_FLOW_MAPPING_END_TOKEN
  | YAML_BLOCK_ENTRY_TOKEN
  | YAML_FLOW_ENTRY_TOKEN
  | YAML_KEY_TOKEN
  | YAML_VALUE_TOKEN
  | YAML_ALIAS_TOKEN string
  | YAML_ANCHOR_TOKEN string
  | YAML_TAG_TOKEN string string
  | YAML_SCALAR_TOKEN string yaml_scalar_style_t

text \<open>
  What \<^verbatim>\<open>parser->error\<close>, \<^verbatim>\<open>parser->context\<close> and \<^verbatim>\<open>parser->problem\<close> hold after a failure.
  \<open>TokenFetchFailed\<close> stands for a \<^verbatim>\<open>PEEK_TOKEN\<close> that returns \<open>NULL\<close>: the scanner or the
  reader has failed and set its own error. Failed allocations are not modelled.
\<close>

datatype yaml_error =
    YAML_SCANNER_ERROR string string
  | YAML_PARSER_ERROR string
  | TokenFetchFailed

type_synonym yaml_tag_directive_t = "string \<times> string"
type_synonym yaml_version_directive_t = "int \<times> int"

text \<open>
  \<^verbatim>\<open>yaml_parser_append_tag_directive(parser, value, allow_duplicates, mark)\<close> on the stack
  \<^verbatim>\<open>parser->tag_directives\<close>.
\<close>

definition yaml_parser_append_tag_directive ::
  "yaml_tag_directive_t list \<Rightarrow> yaml_tag_directive_t \<Rightarrow> bool \<Rightarrow> yaml_error + yaml_tag_directive_t list" where
  "yaml_parser_append_tag_directive tag_directives v allow_duplicates =
     (if \<exists>tag_directive \<in> set tag_directives. fst v = fst tag_directive then
        (if allow_duplicates then Inr tag_directives
         else Inl (YAML_PARSER_ERROR ''found duplicate %TAG directive''))
      else Inr (tag_directives @ [v]))"

text \<open>
  The \<^verbatim>\<open>while\<close> loop of \<^verbatim>\<open>yaml_parser_process_directives\<close>. Its state: the local
  \<open>version_directive\<close> (\<open>None\<close> for \<open>NULL\<close>), the local stack \<open>tag_directives\<close>, the parser's
  stack and the token queue. It ends at the first token that is no directive, which
  stays in the queue.
\<close>

fun process_directives_loop ::
  "yaml_version_directive_t option \<Rightarrow> yaml_tag_directive_t list \<Rightarrow> yaml_tag_directive_t list \<Rightarrow>
   yaml_token_t list \<Rightarrow>
   yaml_error + (yaml_version_directive_t option \<times> yaml_tag_directive_t list \<times> yaml_tag_directive_t list \<times> yaml_token_t list)" where
  "process_directives_loop version_directive tag_directives parser_tag_directives [] =
     Inl TokenFetchFailed"
| "process_directives_loop version_directive tag_directives parser_tag_directives
     (YAML_VERSION_DIRECTIVE_TOKEN major minor # tokens) =
     (if version_directive \<noteq> None then
        Inl (YAML_PARSER_ERROR ''found duplicate %YAML directive'')
      else if major \<noteq> 1 \<or> minor \<noteq> 1 then
        Inl (YAML_PARSER_ERROR ''found incompatible YAML document'')
      else process_directives_loop (Some (major, minor)) tag_directives parser_tag_directives tokens)"
| "process_directives_loop version_directive tag_directives parser_tag_directives
     (YAML_TAG_DIRECTIVE_TOKEN handle prefix # tokens) =
     (case yaml_parser_append_tag_directive parser_tag_directives (handle, prefix) False of
        Inl e \<Rightarrow> Inl e
      | Inr parser_tag_directives' \<Rightarrow>
          process_directives_loop version_directive (tag_directives @ [(handle, prefix)])
            parser_tag_directives' tokens)"
| "process_directives_loop version_directive tag_directives parser_tag_directives (token # tokens) =
     Inr (version_directive, tag_directives, parser_tag_directives, token # tokens)"

definition default_tag_directives :: "yaml_tag_directive_t list" where
  "default_tag_directives = [(''!'', ''!''), (''!!'', ''tag:yaml.org,2002:'')]"

fun append_default_tag_directives ::
  "yaml_tag_directive_t list \<Rightarrow> yaml_tag_directive_t list \<Rightarrow> yaml_error + yaml_tag_directive_t list" where
  "append_default_tag_directives parser_tag_directives [] = Inr parser_tag_directives"
| "append_default_tag_directives parser_tag_directives (default_tag_directive # ds) =
     (case yaml_parser_append_tag_directive parser_tag_directives default_tag_directive True of
        Inl e \<Rightarrow> Inl e
      | Inr parser_tag_directives' \<Rightarrow> append_default_tag_directives parser_tag_directives' ds)"

text \<open>
  \<^verbatim>\<open>yaml_parser_process_directives\<close> with the three reference parameters given: the
  result is the version directive, the document's tag directives, the parser's stack
  and the token queue left.
\<close>

definition yaml_parser_process_directives ::
  "yaml_tag_directive_t list \<Rightarrow> yaml_token_t list \<Rightarrow>
   yaml_error + (yaml_version_directive_t option \<times> yaml_tag_directive_t list \<times> yaml_tag_directive_t list \<times> yaml_token_t list)" where
  "yaml_parser_process_directives parser_tag_directives tokens =
     (case process_directives_loop None [] parser_tag_directives tokens of
        Inl e \<Rightarrow> Inl e
      | Inr (version_directive, tag_directives, parser_tag_directives', tokens') \<Rightarrow>
          (case append_default_tag_directives parser_tag_directives' default_tag_directives of
             Inl e \<Rightarrow> Inl e
           | Inr parser_tag_directives'' \<Rightarrow>
               Inr (version_directive, tag_directives, parser_tag_directives'', tokens')))"

text \<open>The %YAML directives among the directives that open a token queue.\<close>

fun version_directives :: "yaml_token_t list \<Rightarrow> yaml_version_directive_t list" where
  "version_directives (YAML_VERSION_DIRECTIVE_TOKEN major minor # tokens) =
     (major, minor) # version_directives tokens"
| "version_directives (YAML_TAG_DIRECTIVE_TOKEN handle prefix # tokens) = version_directives tokens"
| "version_directives tokens = []"

section \<open>The YAML event binder (ValueYaml.cpp)\<close>

subsection \<open>C strings and the C library\<close>

text \<open>
  A \<^verbatim>\<open>String\<close> is a \<^verbatim>\<open>std::string\<close> that converts to \<^verbatim>\<open>const char*\<close>; the functions
  taking a \<^verbatim>\<open>const char*\<close> see it up to its first NUL.
\<close>

definition c_str :: "string \<Rightarrow> string" where
  "c_str s = takeWhile (\<lambda>c. c \<noteq> CHR 0x00) s"

definition tolower :: "char \<Rightarrow> char" where
  "tolower c = (if CHR ''A'' \<le> c \<and> c \<le> CHR ''Z'' then char_of (of_char c + (32 :: nat)) else c)"

text \<open>\<^verbatim>\<open>HL::Equal\<close>, \<^verbatim>\<open>HL::EqualI\<close> and \<^verbatim>\<open>HL::StartsWith\<close> (String.hpp, String.cpp), on C strings.\<close>

fun Equal :: "string \<Rightarrow> string \<Rightarrow> bool" where
  "Equal [] [] = True"
| "Equal (a # s0) (b # s1) = (a = b \<and> Equal s0 s1)"
| "Equal _ _ = False"

fun EqualI :: "string \<Rightarrow> string \<Rightarrow> bool" where
  "EqualI [] [] = True"
| "EqualI (a # s0) (b # s1) = (tolower a = tolower b \<and> EqualI s0 s1)"
| "EqualI _ _ = False"

definition StartsWith :: "string \<Rightarrow> string \<Rightarrow> bool" where
  "StartsWith s prefix = (take (length prefix) s = prefix)"

text \<open>
  \<^verbatim>\<open>strtol(nptr, &last, 0)\<close> of the C library (ISO C 7.22.1.4, "C" locale), with a 64-bit
  \<^verbatim>\<open>long\<close>: white space is skipped, a sign is optional, the base is 16 after \<open>0x\<close> or \<open>0X\<close>
  followed by a hexadecimal digit, 8 after \<open>0\<close>, 10 otherwise; the longest run of digits of
  the base is converted and the result saturates at \<open>LONG_MIN\<close> and \<open>LONG_MAX\<close>. The result
  is the value and the number of characters up to \<open>last\<close>; with no digits nothing is
  converted and \<open>last\<close> is \<open>nptr\<close>.
\<close>

definition isspace :: "char \<Rightarrow> bool" where
  "isspace c = (c \<in> {CHR '' '', CHR 0x09, CHR 0x0A, CHR 0x0B, CHR 0x0C, CHR 0x0D})"

definition digit_value :: "char \<Rightarrow> nat option" where
  "digit_value c =
     (if CHR ''0'' \<le> c \<and> c \<le> CHR ''9'' then Some (of_char c - of_char (CHR ''0''))
      else if CHR ''a'' \<le> c \<and> c \<le> CHR ''z'' then Some (of_char c - of_char (CHR ''a'') + 10)
      else if CHR ''A'' \<le> c \<and> c \<le> CHR ''Z'' then Some (of_char c - of_char (CHR ''A'') + 10)
      else None)"

definition is_digit_of :: "nat \<Rightarrow> char \<Rightarrow> bool" where
  "is_digit_of base c = (case digit_value c of None \<Rightarrow> False | Some d \<Rightarrow> d < base)"

definition digits_value :: "nat \<Rightarrow> string \<Rightarrow> int" where
  "digits_value base ds = foldl (\<lambda>acc c. acc * int base + int (the (digit_value c))) 0 ds"

definition LONG_MIN :: int where "LONG_MIN = - (2 ^ 63)"
definition LONG_MAX :: int where "LONG_MAX = 2 ^ 63 - 1"

definition strtol :: "string \<Rightarrow> int \<times> nat" where
  "strtol nptr =
     (let s1 = dropWhile isspace nptr;
          negative = (s1 \<noteq> [] \<and> hd s1 = CHR ''-'');
          s2 = (if s1 \<noteq> [] \<and> (hd s1 = CHR ''-'' \<or> hd s1 = CHR ''+'') then tl s1 else s1);
          hex = (length s2 \<ge> 3 \<and> s2 ! 0 = CHR ''0'' \<and> (s2 ! 1 = CHR ''x'' \<or> s2 ! 1 = CHR ''X'')
                 \<and> is_digit_of 16 (s2 ! 2));
          base = (if hex then 16 else if s2 \<noteq> [] \<and> hd s2 = CHR ''0'' then 8 else 10);
          s3 = (if hex then drop 2 s2 else s2);
          ds = takeWhile (is_digit_of base) s3;
          v = (if negative then - digits_value base ds else digits_value base ds)
      in if ds = [] then (0, 0)
         else (max LONG_MIN (min LONG_MAX v), length nptr - length s3 + length ds))"

subsection \<open>Typing a scalar\<close>

text \<open>
  The case \<open>YAML_SCALAR_EVENT\<close> of \<^verbatim>\<open>YamlReader::ParseScalar\<close>, up to the registration of
  the anchor: from the bytes \<open>value\<close> of the event and its style to the Value assigned to
  \<open>*scalar\<close>. \<^verbatim>\<open>strtod\<close> of the C library is a parameter: a function from the C string to
  the double and the number of characters converted. \<^verbatim>\<open>(int) intResult\<close> keeps the low 32
  bits. The string Value is built from \<^verbatim>\<open>valueStr.c_str()\<close>, with or without a string table.
\<close>

definition INFINITY :: double where "INFINITY = PosInf"
definition minus_INFINITY :: double where "minus_INFINITY = NegInf"
definition NAN :: double where "NAN = NaN"

definition erase_underscores :: "string \<Rightarrow> string" where
  "erase_underscores numberStr = filter (\<lambda>c. c \<noteq> CHR ''_'') numberStr"

text \<open>
  \<open>numberStr\<close> as \<^verbatim>\<open>strtol\<close> and \<^verbatim>\<open>strtod\<close> see it: the value without its underscores and,
  when that starts with \<open>0o\<close>, without the \<open>o\<close> (\<^verbatim>\<open>numberStr.erase(1, 1)\<close>).
\<close>

definition numberStr_of :: "string \<Rightarrow> string" where
  "numberStr_of valueStr =
     (let numberStr = erase_underscores valueStr
      in c_str (if StartsWith (c_str numberStr) ''0o''
                then take 1 numberStr @ drop 2 numberStr else numberStr))"

definition number_or_string :: "(string \<Rightarrow> double \<times> nat) \<Rightarrow> string \<Rightarrow> Value" where
  "number_or_string strtod valueStr =
     (let numberStr = numberStr_of valueStr;
          (intResult, last) = strtol numberStr
      in if last = length numberStr then VInt (word_of_int intResult)
         else (let (doubleResult, last) = strtod numberStr
               in if last = length numberStr then VDouble doubleResult
                  else VString (Some (c_str valueStr))))"

definition scalar_event_value ::
  "(string \<Rightarrow> double \<times> nat) \<Rightarrow> string \<Rightarrow> yaml_scalar_style_t \<Rightarrow> Value" where
  "scalar_event_value strtod valueStr style =
     (if style = YAML_PLAIN_SCALAR_STYLE then
        (if c_str valueStr = [] \<or> EqualI (c_str valueStr) ''null'' \<or> Equal (c_str valueStr) ''~''
         then VNull
         else if EqualI (c_str valueStr) ''true'' then VBool True
         else if EqualI (c_str valueStr) ''false'' then VBool False
         else if Equal (c_str valueStr) ''-.inf'' then VDouble minus_INFINITY
         else if Equal (c_str valueStr) ''.inf'' then VDouble INFINITY
         else if Equal (c_str valueStr) ''.nan'' then VDouble NAN
         else number_or_string strtod valueStr)
      else VString (Some (c_str valueStr)))"



subsection \<open>Events and the reader\<close>

text \<open>
  Modelled from the spec: the event type of the absent \<^verbatim>\<open>yaml.h\<close>, with the fields the
  binder reads (the anchor, the value and the style of a scalar; the anchor of an alias,
  a sequence and a mapping).
\<close>

datatype yaml_event_t =
    YAML_NO_EVENT
  | YAML_STREAM_START_EVENT
  | YAML_STREAM_END_EVENT
  | YAML_DOCUMENT_START_EVENT
  | YAML_DOCUMENT_END_EVENT
  | YAML_ALIAS_EVENT string
  | YAML_SCALAR_EVENT "string option" string yaml_scalar_style_t
  | YAML_SEQUENCE_START_EVENT "string option"
  | YAML_SEQUENCE_END_EVENT
  | YAML_MAPPING_START_EVENT "string option"
  | YAML_MAPPING_END_EVENT

datatype YamlResult = kYamlOk | kYamlEnd | kYamlError

text \<open>
  \<^verbatim>\<open>struct YamlReader\<close>. The parser \<open>mParser\<close> is the source of the events: \<open>events\<close> are
  the events it will deliver, in order; after them it fails with \<open>parser_error\<close> if
  there is one, and otherwise delivers \<open>YAML_NO_EVENT\<close> for ever, as
  \<^verbatim>\<open>yaml_parser_parse\<close> does once the stream has ended. \<open>problem\<close> is \<^verbatim>\<open>mParser.problem\<close>.
  \<open>mAnchors\<close> is read with \<^verbatim>\<open>find\<close> and written with \<^verbatim>\<open>operator[]\<close>: a finite map. An
  anchor on a mapping stores a Value that shares the object payload; the model stores
  the object as it is then, which is the same as long as the anchored object is not
  modified afterwards (by a repeated key or a merge into it).
\<close>

record YamlReader =
  events :: "yaml_event_t list"
  parser_error :: "yaml_error option"
  problem :: "string option"
  mAnchors :: "string \<rightharpoonup> Value"

definition yaml_parser_parse :: "YamlReader \<Rightarrow> yaml_event_t option \<times> YamlReader" where
  "yaml_parser_parse rdr =
     (case events rdr of
        event # es \<Rightarrow> (Some event, rdr\<lparr>events := es\<rparr>)
      | [] \<Rightarrow> (case parser_error rdr of
                 Some e \<Rightarrow> (None, rdr)
               | None \<Rightarrow> (Some YAML_NO_EVENT, rdr)))"

text \<open>
  \<^verbatim>\<open>ToObjectPtr()\<close>: a null Value becomes an empty object; the result is the payload, or
  null for a Value of another type. \<^verbatim>\<open>AsObjectPtr()\<close> does not convert.
\<close>

definition ToObjectPtr :: "Value \<Rightarrow> ObjectValue option" where
  "ToObjectPtr v =
     (case v of VNull \<Rightarrow> Some (ObjectPayload [] 0) | VObject ob \<Rightarrow> Some ob | _ \<Rightarrow> None)"

definition AsObjectPtr :: "Value \<Rightarrow> ObjectValue option" where
  "AsObjectPtr v = (case v of VObject ob \<Rightarrow> Some ob | _ \<Rightarrow> None)"

text \<open>
  The merge of \<open>mergeValue\<close> into \<open>*object\<close> for the key \<open><<\<close>: an object is merged; of an
  array, every element that is an object is merged, in order, and an element that is
  not clears \<open>success\<close>; any other Value is ignored.
\<close>

fun merge_array ::
  "ObjectValue option \<Rightarrow> Value list \<Rightarrow> undefined_behaviour + (ObjectValue option \<times> bool)" where
  "merge_array object [] = Inr (object, True)"
| "merge_array object (av # avs) =
     (case av of
        VObject m \<Rightarrow>
          (case object of
             None \<Rightarrow> Inl NullPointerDereference
           | Some ob \<Rightarrow> merge_array (Some (ObjectValue_Merge ob m)) avs)
      | _ \<Rightarrow>
          (case merge_array object avs of
             Inl ub \<Rightarrow> Inl ub
           | Inr (object1, success) \<Rightarrow> Inr (object1, False)))"

definition merge_key_value ::
  "ObjectValue option \<Rightarrow> Value \<Rightarrow> undefined_behaviour + (ObjectValue option \<times> bool)" where
  "merge_key_value object mergeValue =
     (case mergeValue of
        VObject m \<Rightarrow>
          (case object of
             None \<Rightarrow> Inl NullPointerDereference
           | Some ob \<Rightarrow> Inr (Some (ObjectValue_Merge ob m), True))
      | VArray mArray \<Rightarrow>
          (case mArray of
             None \<Rightarrow> Inl NullPointerDereference
           | Some avs \<Rightarrow> merge_array object avs)
      | _ \<Rightarrow> Inr (object, True))"

subsection \<open>ParseScalar, ParseSequence, ParseMapping\<close>

text \<open>
  The three mutually recursive functions of \<^verbatim>\<open>YamlReader\<close>. The first argument bounds
  the number of nested calls and loop iterations; \<open>None\<close> is the result when the bound is
  reached, which is how a run that does not end shows (\<^verbatim>\<open>ParseScalar\<close> on a parser that
  only delivers \<open>YAML_NO_EVENT\<close>). \<open>Inl NullPointerDereference\<close> is a call through a null
  \<^verbatim>\<open>ObjectValue*\<close>: \<^verbatim>\<open>ParseMapping(scalar->ToObjectPtr())\<close> when \<open>*scalar\<close> holds a Value
  that is neither null nor an object. In-out parameters are an argument and a component
  of the result.

  The anchor of a scalar is registered by \<^verbatim>\<open>mAnchors[...] = scalar\<close> where \<open>scalar\<close> is a
  \<^verbatim>\<open>Value*\<close>: the only assignment operator of Value that takes a pointer to Value is the
  one for \<^verbatim>\<open>bool\<close>, so the Value stored is \<open>true\<close>.
\<close>

type_synonym 'a run = "(undefined_behaviour + (YamlResult \<times> YamlReader \<times> 'a)) option"

fun ParseScalar :: "nat \<Rightarrow> (string \<Rightarrow> double \<times> nat) \<Rightarrow> YamlReader \<Rightarrow> Value \<Rightarrow> Value run"
  and ParseSequence :: "nat \<Rightarrow> (string \<Rightarrow> double \<times> nat) \<Rightarrow> YamlReader \<Rightarrow> Value list \<Rightarrow> (Value list) run"
  and ParseMapping :: "nat \<Rightarrow> (string \<Rightarrow> double \<times> nat) \<Rightarrow> YamlReader \<Rightarrow> ObjectValue option \<Rightarrow> (ObjectValue option) run"
  where
  "ParseScalar 0 strtod rdr scalar = None"
| "ParseScalar (Suc n) strtod rdr scalar =
     (case yaml_parser_parse rdr of
        (None, rdr1) \<Rightarrow> Some (Inr (kYamlError, rdr1, scalar))
      | (Some event, rdr1) \<Rightarrow>
          (case event of
             YAML_NO_EVENT \<Rightarrow> ParseScalar n strtod rdr1 scalar
           | YAML_STREAM_START_EVENT \<Rightarrow> ParseScalar n strtod rdr1 scalar
           | YAML_DOCUMENT_START_EVENT \<Rightarrow> ParseScalar n strtod rdr1 scalar
           | YAML_STREAM_END_EVENT \<Rightarrow> Some (Inr (kYamlOk, rdr1, scalar))
           | YAML_DOCUMENT_END_EVENT \<Rightarrow> Some (Inr (kYamlOk, rdr1, scalar))
           | YAML_SEQUENCE_START_EVENT anchor \<Rightarrow>
               (case ParseSequence n strtod rdr1 [] of
                  None \<Rightarrow> None
                | Some (Inl ub) \<Rightarrow> Some (Inl ub)
                | Some (Inr (result, rdr2, array)) \<Rightarrow>
                    Some (Inr (result,
                      (case anchor of
                         None \<Rightarrow> rdr2
                       | Some a \<Rightarrow> rdr2\<lparr>mAnchors := (mAnchors rdr2)(a \<mapsto> VArray (Some array))\<rparr>),
                      VArray (Some array))))
           | YAML_MAPPING_START_EVENT anchor \<Rightarrow>
               (case ParseMapping n strtod rdr1 (ToObjectPtr scalar) of
                  None \<Rightarrow> None
                | Some (Inl ub) \<Rightarrow> Some (Inl ub)
                | Some (Inr (result, rdr2, object)) \<Rightarrow>
                    (let scalar1 = (case object of Some ob \<Rightarrow> VObject ob | None \<Rightarrow> scalar)
                     in case anchor of
                          None \<Rightarrow> Some (Inr (result, rdr2, scalar1))
                        | Some a \<Rightarrow>
                            (case AsObjectPtr scalar1 of
                               None \<Rightarrow> Some (Inl NullPointerDereference)
                             | Some ob \<Rightarrow>
                                 Some (Inr (result,
                                   rdr2\<lparr>mAnchors := (mAnchors rdr2)(a \<mapsto> VObject ob)\<rparr>, scalar1)))))
           | YAML_SEQUENCE_END_EVENT \<Rightarrow> Some (Inr (kYamlEnd, rdr1, scalar))
           | YAML_MAPPING_END_EVENT \<Rightarrow> Some (Inr (kYamlEnd, rdr1, scalar))
           | YAML_ALIAS_EVENT anchor \<Rightarrow>
               (case mAnchors rdr1 anchor of
                  Some v \<Rightarrow> Some (Inr (kYamlOk, rdr1, Value_assign scalar v))
                | None \<Rightarrow>
                    Some (Inr (kYamlError,
                      rdr1\<lparr>problem := Some (''unknown anchor '' @ [CHR 0x27] @ anchor @ [CHR 0x27])\<rparr>,
                      scalar)))
           | YAML_SCALAR_EVENT anchor v style \<Rightarrow>
               Some (Inr (kYamlOk,
                 (case anchor of
                    None \<Rightarrow> rdr1
                  | Some a \<Rightarrow> rdr1\<lparr>mAnchors := (mAnchors rdr1)(a \<mapsto> VBool True)\<rparr>),
                 scalar_event_value strtod v style))))"
| "ParseSequence 0 strtod rdr array = None"
| "ParseSequence (Suc n) strtod rdr array =
     (case ParseScalar n strtod rdr VNull of
        None \<Rightarrow> None
      | Some (Inl ub) \<Rightarrow> Some (Inl ub)
      | Some (Inr (result, rdr1, item)) \<Rightarrow>
          if result = kYamlEnd then Some (Inr (kYamlOk, rdr1, array))
          else if result = kYamlError then Some (Inr (kYamlError, rdr1, array))
          else ParseSequence n strtod rdr1 (array @ [item]))"
| "ParseMapping 0 strtod rdr object = None"
| "ParseMapping (Suc n) strtod rdr object =
     (case yaml_parser_parse rdr of
        (None, rdr1) \<Rightarrow> Some (Inr (kYamlError, rdr1, object))
      | (Some event, rdr1) \<Rightarrow>
          (case event of
             YAML_MAPPING_END_EVENT \<Rightarrow> Some (Inr (kYamlOk, rdr1, object))
           | YAML_SCALAR_EVENT anchor key style \<Rightarrow>
               (if key = ''<<'' then
                  (case ParseScalar n strtod rdr1 VNull of
                     None \<Rightarrow> None
                   | Some (Inl ub) \<Rightarrow> Some (Inl ub)
                   | Some (Inr (result, rdr2, mergeValue)) \<Rightarrow>
                       if result = kYamlOk then
                         (case merge_key_value object mergeValue of
                            Inl ub \<Rightarrow> Some (Inl ub)
                          | Inr (object1, success) \<Rightarrow>
                              if success then ParseMapping n strtod rdr2 object1
                              else Some (Inr (kYamlError,
                                rdr2\<lparr>problem := Some ''can't merge non-mapping''\<rparr>, object1)))
                       else Some (Inr (result, rdr2, object)))
                else
                  (case object of
                     None \<Rightarrow> Some (Inl NullPointerDereference)
                   | Some ob \<Rightarrow>
                       (case UpdateMember (c_str key) ob of
                          (ob1, it) \<Rightarrow>
                            (case ParseScalar n strtod rdr1 (snd (mMap ob1 ! it)) of
                               None \<Rightarrow> None
                             | Some (Inl ub) \<Rightarrow> Some (Inl ub)
                             | Some (Inr (result, rdr2, newMember)) \<Rightarrow>
                                 if result = kYamlOk
                                 then ParseMapping n strtod rdr2 (Some (store_member ob1 it newMember))
                                 else Some (Inr (result, rdr2, Some (store_member ob1 it newMember)))))))
           | _ \<Rightarrow>
               Some (Inr (kYamlError,
                 rdr1\<lparr>problem := Some ''expecting scalar value for key''\<rparr>, object))))"

text \<open>\<^verbatim>\<open>HL::LoadYamlText\<close> on the events of the text: the Value and whether loading succeeded.\<close>

definition LoadYaml ::
  "nat \<Rightarrow> (string \<Rightarrow> double \<times> nat) \<Rightarrow> yaml_event_t list \<Rightarrow> (undefined_behaviour + (bool \<times> Value)) option" where
  "LoadYaml fuel strtod evs =
     (case ParseScalar fuel strtod \<lparr>events = evs, parser_error = None, problem = None, mAnchors = Map.empty\<rparr> VNull of
        None \<Rightarrow> None
      | Some (Inl ub) \<Rightarrow> Some (Inl ub)
      | Some (Inr (result, rdr, v)) \<Rightarrow> Some (Inr (result \<noteq> kYamlError, v)))"

section \<open>The YAML scanner: block scalars (cut-down libyaml)\<close>

text \<open>
  The scanner works on the decoded characters of the input that are still unread, with the
  column of the mark; a character is its code point, and the end of the input reads as the
  character 0, as the zero-filled buffer of the reader gives it. \<^verbatim>\<open>CACHE\<close> and the
  allocations of the strings are taken to succeed.
\<close>

type_synonym yaml_char = nat

definition current :: "yaml_char list \<Rightarrow> yaml_char" where
  "current buffer = (case buffer of [] \<Rightarrow> 0 | c # _ \<Rightarrow> c)"

definition IS_Z :: "yaml_char list \<Rightarrow> bool" where
  "IS_Z buffer = (current buffer = 0)"

definition IS_SPACE :: "yaml_char list \<Rightarrow> bool" where
  "IS_SPACE buffer = (current buffer = 0x20)"

definition IS_TAB :: "yaml_char list \<Rightarrow> bool" where
  "IS_TAB buffer = (current buffer = 0x09)"

definition IS_BLANK :: "yaml_char list \<Rightarrow> bool" where
  "IS_BLANK buffer = (IS_SPACE buffer \<or> IS_TAB buffer)"

definition is_break :: "yaml_char \<Rightarrow> bool" where
  "is_break c = (c = 0x0D \<or> c = 0x0A \<or> c = 0x85 \<or> c = 0x2028 \<or> c = 0x2029)"

definition IS_BREAK :: "yaml_char list \<Rightarrow> bool" where
  "IS_BREAK buffer = is_break (current buffer)"

definition IS_CRLF :: "yaml_char list \<Rightarrow> bool" where
  "IS_CRLF buffer = (current buffer = 0x0D \<and> current (tl buffer) = 0x0A)"

definition IS_BREAKZ :: "yaml_char list \<Rightarrow> bool" where
  "IS_BREAKZ buffer = (IS_BREAK buffer \<or> IS_Z buffer)"

definition IS_DIGIT :: "yaml_char list \<Rightarrow> bool" where
  "IS_DIGIT buffer = (current buffer \<ge> 0x30 \<and> current buffer \<le> 0x39)"

definition AS_DIGIT :: "yaml_char list \<Rightarrow> int" where
  "AS_DIGIT buffer = int (current buffer) - 0x30"

definition SKIP :: "yaml_char list \<times> int \<Rightarrow> yaml_char list \<times> int" where
  "SKIP p = (tl (fst p), snd p + 1)"

definition SKIP_LINE :: "yaml_char list \<times> int \<Rightarrow> yaml_char list \<times> int" where
  "SKIP_LINE p =
     (if IS_CRLF (fst p) then (drop 2 (fst p), 0)
      else if IS_BREAK (fst p) then (tl (fst p), 0)
      else p)"

definition READ :: "yaml_char list \<times> int \<Rightarrow> yaml_char list \<Rightarrow> (yaml_char list \<times> int) \<times> yaml_char list" where
  "READ p string = ((tl (fst p), snd p + 1), string @ [current (fst p)])"

definition READ_LINE :: "yaml_char list \<times> int \<Rightarrow> yaml_char list \<Rightarrow> (yaml_char list \<times> int) \<times> yaml_char list" where
  "READ_LINE p string =
     (if IS_CRLF (fst p) then ((drop 2 (fst p), 0), string @ [0x0A])
      else if current (fst p) = 0x0D \<or> current (fst p) = 0x0A then ((tl (fst p), 0), string @ [0x0A])
      else if current (fst p) = 0x85 then ((tl (fst p), 0), string @ [0x0A])
      else if current (fst p) = 0x2028 \<or> current (fst p) = 0x2029
        then ((tl (fst p), 0), string @ [current (fst p)])
      else (p, string))"

definition block_scalar_error :: "string \<Rightarrow> yaml_error" where
  "block_scalar_error what = YAML_SCANNER_ERROR ''while scanning a block scalar'' what"

definition scan_block_scalar_header ::
  "yaml_char list \<times> int \<Rightarrow> yaml_error + (int \<times> int \<times> (yaml_char list \<times> int))" where
  "scan_block_scalar_header p =
     (if current (fst p) = 0x2B \<or> current (fst p) = 0x2D then
        (let chomping = (if current (fst p) = 0x2B then 1 else - 1);
             p1 = SKIP p
         in if IS_DIGIT (fst p1) then
              (if current (fst p1) = 0x30
               then Inl (block_scalar_error ''found an indentation indicator equal to 0'')
               else Inr (chomping, AS_DIGIT (fst p1), SKIP p1))
            else Inr (chomping, 0, p1))
      else if IS_DIGIT (fst p) then
        (if current (fst p) = 0x30
         then Inl (block_scalar_error ''found an indentation indicator equal to 0'')
         else (let increment = AS_DIGIT (fst p);
                   p1 = SKIP p
               in if current (fst p1) = 0x2B \<or> current (fst p1) = 0x2D
                  then Inr (if current (fst p1) = 0x2B then 1 else - 1, increment, SKIP p1)
                  else Inr (0, increment, p1)))
      else Inr (0, 0, p))"

fun skip_blanks :: "yaml_char list \<Rightarrow> int \<Rightarrow> yaml_char list \<times> int" where
  "skip_blanks [] column = ([], column)"
| "skip_blanks (c # cs) column =
     (if IS_BLANK (c # cs) then skip_blanks cs (column + 1) else (c # cs, column))"

fun skip_to_break :: "yaml_char list \<Rightarrow> int \<Rightarrow> yaml_char list \<times> int" where
  "skip_to_break [] column = ([], column)"
| "skip_to_break (c # cs) column =
     (if \<not> IS_BREAKZ (c # cs) then skip_to_break cs (column + 1) else (c # cs, column))"

fun skip_indentation :: "int \<Rightarrow> yaml_char list \<Rightarrow> int \<Rightarrow> yaml_char list \<times> int" where
  "skip_indentation indent [] column = ([], column)"
| "skip_indentation indent (c # cs) column =
     (if (indent = 0 \<or> column < indent) \<and> IS_SPACE (c # cs)
      then skip_indentation indent cs (column + 1) else (c # cs, column))"

fun read_line :: "yaml_char list \<Rightarrow> int \<Rightarrow> yaml_char list \<Rightarrow> (yaml_char list \<times> int) \<times> yaml_char list" where
  "read_line [] column string = (([], column), string)"
| "read_line (c # cs) column string =
     (if \<not> IS_BREAKZ (c # cs) then read_line cs (column + 1) (string @ [c])
      else ((c # cs, column), string))"

lemma length_skip_indentation: "length (fst (skip_indentation indent buffer column)) \<le> length buffer"
  by (induction indent buffer column rule: skip_indentation.induct) auto

lemma length_READ_LINE: "length (fst (fst (READ_LINE p string))) \<le> length (fst p)"
  by (simp add: READ_LINE_def)

lemma length_READ_LINE_break:
  "IS_BREAK (fst p) \<Longrightarrow> length (fst (fst (READ_LINE p string))) < length (fst p)"
  by (cases "fst p") (auto simp: READ_LINE_def IS_BREAK_def is_break_def current_def IS_CRLF_def)

function block_scalar_breaks_loop ::
  "int \<Rightarrow> int \<Rightarrow> yaml_char list \<Rightarrow> yaml_char list \<times> int \<Rightarrow>
   yaml_error + (int \<times> yaml_char list \<times> (yaml_char list \<times> int))" where
  "block_scalar_breaks_loop indent max_indent breaks p =
     (let p1 = skip_indentation indent (fst p) (snd p);
          max_indent1 = (if snd p1 > max_indent then snd p1 else max_indent)
      in if (indent = 0 \<or> snd p1 < indent) \<and> IS_TAB (fst p1) then
           Inl (block_scalar_error ''found a tab character where an indentation space is expected'')
         else if \<not> IS_BREAK (fst p1) then Inr (max_indent1, breaks, p1)
         else block_scalar_breaks_loop indent max_indent1 (snd (READ_LINE p1 breaks))
                (fst (READ_LINE p1 breaks)))"
  by pat_completeness auto
termination
proof (relation "measure (\<lambda>(indent, max_indent, breaks, p). length (fst p))")
  show "wf (measure (\<lambda>(indent, max_indent, breaks, p). length (fst p)))"
    by simp
next
  fix indent max_indent :: int and breaks :: "yaml_char list" and p :: "yaml_char list \<times> int"
    and p1 max_indent1
  assume "p1 = skip_indentation indent (fst p) (snd p)"
    and "\<not> ((indent = 0 \<or> snd p1 < indent) \<and> IS_TAB (fst p1))"
    and "\<not> \<not> IS_BREAK (fst p1)"
  then show "((indent, max_indent1, snd (READ_LINE p1 breaks), fst (READ_LINE p1 breaks)),
          indent, max_indent, breaks, p)
         \<in> measure (\<lambda>(indent, max_indent, breaks, p). length (fst p))"
    using length_skip_indentation [of indent "fst p" "snd p"]
      length_READ_LINE_break [of p1 breaks]
    by simp
qed


declare block_scalar_breaks_loop.simps [simp del]

definition yaml_parser_scan_block_scalar_breaks ::
  "int \<Rightarrow> int \<Rightarrow> yaml_char list \<Rightarrow> yaml_char list \<times> int \<Rightarrow>
   yaml_error + (int \<times> yaml_char list \<times> (yaml_char list \<times> int))" where
  "yaml_parser_scan_block_scalar_breaks parser_indent indent breaks p =
     (case block_scalar_breaks_loop indent 0 breaks p of
        Inl e \<Rightarrow> Inl e
      | Inr (max_indent, breaks1, p1) \<Rightarrow>
          if indent = 0 then
            (let indent1 = max_indent;
                 indent2 = (if indent1 < parser_indent + 1 then parser_indent + 1 else indent1);
                 indent3 = (if indent2 < 1 then 1 else indent2)
             in Inr (indent3, breaks1, p1))
          else Inr (indent, breaks1, p1))"

lemma length_read_line: "length (fst (fst (read_line buffer column string))) \<le> length buffer"
  by (induction buffer column string rule: read_line.induct) auto

lemma length_read_line_content:
  "\<not> IS_BREAKZ buffer \<Longrightarrow> length (fst (fst (read_line buffer column string))) < length buffer"
  using length_read_line [of "tl buffer" "column + 1" "string @ [hd buffer]"]
  by (cases buffer) (auto simp: IS_BREAKZ_def IS_Z_def current_def)

lemma length_breaks_loop:
  "block_scalar_breaks_loop indent max_indent breaks p = Inr (m, b, p') \<Longrightarrow>
   length (fst p') \<le> length (fst p)"
proof (induction indent max_indent breaks p rule: block_scalar_breaks_loop.induct)
  case (1 indent max_indent breaks p)
  let ?p1 = "skip_indentation indent (fst p) (snd p)"
  show ?case
  proof (cases "IS_BREAK (fst ?p1)")
    case True
    have u: "block_scalar_breaks_loop indent max_indent breaks p =
        (if (indent = 0 \<or> snd ?p1 < indent) \<and> IS_TAB (fst ?p1) then
           Inl (block_scalar_error ''found a tab character where an indentation space is expected'')
         else block_scalar_breaks_loop indent (if snd ?p1 > max_indent then snd ?p1 else max_indent)
                (snd (READ_LINE ?p1 breaks)) (fst (READ_LINE ?p1 breaks)))"
      using True by (subst block_scalar_breaks_loop.simps) (simp add: Let_def)
    with "1.prems" have nt: "\<not> ((indent = 0 \<or> snd ?p1 < indent) \<and> IS_TAB (fst ?p1))"
      by (auto split: if_splits)
    from "1.prems" u nt have
      "block_scalar_breaks_loop indent (if snd ?p1 > max_indent then snd ?p1 else max_indent)
         (snd (READ_LINE ?p1 breaks)) (fst (READ_LINE ?p1 breaks)) = Inr (m, b, p')"
      by (simp split: if_splits)
    from "1.IH" [OF refl refl nt _ this] True
    have "length (fst p') \<le> length (fst (fst (READ_LINE ?p1 breaks)))"
      by simp
    then show ?thesis
      using length_READ_LINE [of ?p1 breaks] length_skip_indentation [of indent "fst p" "snd p"]
      by simp
  next
    case False
    have "block_scalar_breaks_loop indent max_indent breaks p =
        (if (indent = 0 \<or> snd ?p1 < indent) \<and> IS_TAB (fst ?p1) then
           Inl (block_scalar_error ''found a tab character where an indentation space is expected'')
         else Inr (if snd ?p1 > max_indent then snd ?p1 else max_indent, breaks, ?p1))"
      using False by (subst block_scalar_breaks_loop.simps) (simp add: Let_def)
    with "1.prems" have "p' = ?p1"
      by (auto split: if_splits)
    then show ?thesis
      using length_skip_indentation [of indent "fst p" "snd p"] by simp
  qed
qed

lemma length_scan_block_scalar_breaks:
  "yaml_parser_scan_block_scalar_breaks parser_indent indent breaks p = Inr (i, b, p') \<Longrightarrow>
   length (fst p') \<le> length (fst p)"
  by (auto simp: yaml_parser_scan_block_scalar_breaks_def Let_def
      split: sum.splits if_splits dest: length_breaks_loop)

function block_scalar_content ::
  "bool \<Rightarrow> int \<Rightarrow> int \<Rightarrow> bool \<Rightarrow> yaml_char list \<Rightarrow> yaml_char list \<Rightarrow> yaml_char list \<Rightarrow>
   yaml_char list \<times> int \<Rightarrow>
   yaml_error + (yaml_char list \<times> yaml_char list \<times> yaml_char list \<times> (yaml_char list \<times> int))" where
  "block_scalar_content literal parser_indent indent leading_blank string leading_break
     trailing_breaks p =
     (if snd p = indent \<and> \<not> IS_Z (fst p) then
        (let trailing_blank = IS_BLANK (fst p);
             string1 =
               (if \<not> literal \<and> current leading_break = 0x0A \<and> \<not> leading_blank \<and> \<not> trailing_blank
                then (if trailing_breaks = [] then string @ [0x20] else string)
                else string @ leading_break);
             string2 = string1 @ trailing_breaks;
             leading_blank1 = IS_BLANK (fst p);
             r = read_line (fst p) (snd p) string2;
             l = READ_LINE (fst r) []
         in case yaml_parser_scan_block_scalar_breaks parser_indent indent [] (fst l) of
              Inl e \<Rightarrow> Inl e
            | Inr (indent1, trailing_breaks1, p1) \<Rightarrow>
                block_scalar_content literal parser_indent indent1 leading_blank1 (snd r) (snd l)
                  trailing_breaks1 p1)
      else Inr (string, leading_break, trailing_breaks, p))"
  by pat_completeness auto
termination
proof (relation "measure (\<lambda>(literal, parser_indent, indent, leading_blank, string, leading_break,
    trailing_breaks, p). length (fst p))")
  show "wf (measure (\<lambda>(literal, parser_indent, indent, leading_blank, string, leading_break,
    trailing_breaks, p). length (fst p)))"
    by simp
next
  fix literal :: bool and parser_indent indent :: int and leading_blank :: bool
    and string leading_break trailing_breaks :: "yaml_char list" and p :: "yaml_char list \<times> int"
    and trailing_blank string1 string2 leading_blank1 r l x2 indent1 y trailing_breaks1 p1
  assume c: "snd p = indent \<and> \<not> IS_Z (fst p)"
    and r: "r = read_line (fst p) (snd p) string2"
    and l: "l = READ_LINE (fst r) []"
    and s: "yaml_parser_scan_block_scalar_breaks parser_indent indent [] (fst l) = Inr x2"
    and x: "(indent1, y) = x2" "(trailing_breaks1, p1) = y"
  from s x have "length (fst p1) \<le> length (fst (fst l))"
    using length_scan_block_scalar_breaks [of parser_indent indent "[]" "fst l" indent1 trailing_breaks1 p1]
    by auto
  moreover have "length (fst (fst l)) < length (fst p)"
  proof (cases "IS_BREAKZ (fst p)")
    case True
    with c have b: "IS_BREAK (fst p)" by (simp add: IS_BREAKZ_def)
    then have "fst r = p"
      using r by (cases "fst p") (auto simp: IS_BREAKZ_def current_def IS_BREAK_def prod_eq_iff)
    with b l show ?thesis using length_READ_LINE_break [of p "[]"] by simp
  next
    case False
    then have "length (fst (fst r)) < length (fst p)"
      using r length_read_line_content by simp
    then show ?thesis using l length_READ_LINE [of "fst r" "[]"] by simp
  qed
  ultimately show "((literal, parser_indent, indent1, leading_blank1, snd r, snd l, trailing_breaks1, p1),
          literal, parser_indent, indent, leading_blank, string, leading_break, trailing_breaks, p)
         \<in> measure (\<lambda>(literal, parser_indent, indent, leading_blank, string, leading_break,
              trailing_breaks, p). length (fst p))"
    by simp
qed


declare block_scalar_content.simps [simp del]

definition chomp_tail :: "int \<Rightarrow> yaml_char list \<Rightarrow> yaml_char list \<Rightarrow> yaml_char list \<Rightarrow> yaml_char list" where
  "chomp_tail chomping string leading_break trailing_breaks =
     (let string1 = (if chomping \<noteq> - 1 then string @ leading_break else string);
          string2 = (if chomping = 1 then string1 @ trailing_breaks else string1)
      in string2)"

definition yaml_parser_scan_block_scalar ::
  "int \<Rightarrow> yaml_char list \<times> int \<Rightarrow> bool \<Rightarrow>
   yaml_error + ((yaml_char list \<times> yaml_scalar_style_t) \<times> (yaml_char list \<times> int))" where
  "yaml_parser_scan_block_scalar parser_indent p literal =
     (case scan_block_scalar_header (SKIP p) of
        Inl e \<Rightarrow> Inl e
      | Inr (chomping, increment, p1) \<Rightarrow>
          (let p2 = skip_blanks (fst p1) (snd p1);
               p3 = (if current (fst p2) = 0x23 then skip_to_break (fst p2) (snd p2) else p2)
           in if \<not> IS_BREAKZ (fst p3) then
                Inl (block_scalar_error ''did not find expected comment or line break'')
              else
                (let p4 = (if IS_BREAK (fst p3) then SKIP_LINE p3 else p3);
                     indent = (if increment \<noteq> 0
                               then (if parser_indent \<ge> 0 then parser_indent + increment else increment)
                               else 0)
                 in case yaml_parser_scan_block_scalar_breaks parser_indent indent [] p4 of
                      Inl e \<Rightarrow> Inl e
                    | Inr (indent1, trailing_breaks, p5) \<Rightarrow>
                        (case block_scalar_content literal parser_indent indent1 False [] []
                                trailing_breaks p5 of
                           Inl e \<Rightarrow> Inl e
                         | Inr (string, leading_break, trailing_breaks1, p6) \<Rightarrow>
                             Inr ((chomp_tail chomping string leading_break trailing_breaks1,
                                   if literal then YAML_LITERAL_SCALAR_STYLE
                                   else YAML_FOLDED_SCALAR_STYLE), p6)))))"





section \<open>Properties of the numeric conversions\<close>

lemmas limit_defs =
  INT32_MIN_def INT32_MAX_def UINT32_MAX_def INT64_MIN_def INT64_MAX_def UINT64_MAX_def

subsection \<open>Words as integers\<close>






















subsection \<open>Convertibility against the coercions\<close>


text \<open>
  In the other direction the pair \<open>uint64 \<rightarrow> int64\<close> fails: the limit is written
  \<^verbatim>\<open>(unsigned) INT64_MAX\<close>, which is \<open>2^32 - 1\<close>, so \<open>2^32\<close> is reported as not convertible
  although \<open>AsInt64\<close> returns it unchanged.
\<close>

lemma IsConvertibleTo_uint64_int64_limit:
  "\<not> IsConvertibleTo (VUInt64 4294967296) kValueInt64
   \<and> returns_unchanged (VUInt64 4294967296) kValueInt64"
  by (simp add: returns_unchanged_def limit_defs unsigned_cast_def)



subsection \<open>Saturation of the lossy coercions\<close>

text \<open>
  Claim C6 says that a double above the destination range yields the destination maximum.
  \<open>AsInt64\<close> compares with \<^verbatim>\<open>double(INT64_MAX)\<close>, which is \<open>2^63\<close>: the double \<open>2^63\<close> is
  above \<open>INT64_MAX\<close>, is not greater than the limit compared with, and reaches the
  conversion \<^verbatim>\<open>int64_t(mDouble)\<close> out of range.
\<close>

theorem AsInt64_double_boundary:
  "INT64_MAX < 2 ^ 63
   \<and> AsInt64 (VDouble (Finite (2 ^ 63))) defaultValue = Inl FloatToIntOutOfRange"
  by (simp add: limit_defs double_of_const_def double_gt_def double_to_int_def trunc_def)

text \<open>\<open>AsUInt64\<close> has the same boundary at \<open>2^64\<close>.\<close>

lemma AsUInt64_double_boundary:
  "UINT64_MAX < 2 ^ 64
   \<and> AsUInt64 (VDouble (Finite (2 ^ 64))) defaultValue = Inl FloatToIntOutOfRange"
  by (simp add: limit_defs double_of_const_def double_gt_def double_to_int_def trunc_def)

section \<open>Properties of array access\<close>

text \<open>
  Claim C2 says that \<open>Elt(i)\<close> returns the null sentinel when \<open>i\<close> is outside
  \<open>[0, NumElts())\<close>. On an array of two elements \<open>Elt(2)\<close> and \<open>Elt(-1)\<close> read outside the
  payload instead.
\<close>

theorem Elt_out_of_range:
  "NumElts (VArray (Some [VInt 1, VInt 2])) = 2
   \<and> Elt (VArray (Some [VInt 1, VInt 2])) 2 = Inl ArrayIndexOutOfRange
   \<and> Elt (VArray (Some [VInt 1, VInt 2])) (- 1) = Inl ArrayIndexOutOfRange"
  by (simp add: Elt_def NumElts_def)

text \<open>The two parts of the claim the code keeps: a value that is no array, and an index in range.\<close>

lemma Elt_not_array: "\<not> IsArray v \<Longrightarrow> Elt v i = Inr kNullValue"
  by (cases v) (simp_all add: Elt_def IsArray_def)

lemma Elt_in_range:
  "0 \<le> i \<Longrightarrow> i < NumElts (VArray (Some data)) \<Longrightarrow>
   Elt (VArray (Some data)) i = Inr (data ! nat i)"
  by (simp add: Elt_def NumElts_def)

section \<open>Properties of objects\<close>

subsection \<open>The member map\<close>

lemma lower_bound_le: "lower_bound m k \<le> length m"
  by (simp add: lower_bound_def length_takeWhile_le)

lemma sorted_keys_Cons: "sorted_keys (kv # m) \<longleftrightarrow> (\<forall>x \<in> set m. fst kv < fst x) \<and> sorted_keys m"
  by (auto simp: sorted_keys_def)


lemma lower_bound_Cons:
  "lower_bound (kv # m) k = (if fst kv < k then Suc (lower_bound m k) else 0)"
  by (simp add: lower_bound_def)

lemma sorted_keys_map_of_None:
  "sorted_keys (kv # m) \<Longrightarrow> \<not> fst kv < k \<Longrightarrow> map_of m k = None"
proof (rule ccontr)
  assume s: "sorted_keys (kv # m)" and n: "\<not> fst kv < k" and "map_of m k \<noteq> None"
  then obtain v where "(k, v) \<in> set m" by (auto dest: map_of_SomeD)
  with s have "fst kv < k" by (auto simp: sorted_keys_Cons)
  with n show False by simp
qed

lemma find_key_Cons:
  "sorted_keys (kv # m) \<Longrightarrow>
   find_key (kv # m) k =
     (if fst kv < k then (if find_key m k = length m then Suc (length m) else Suc (find_key m k))
      else if fst kv = k then 0 else Suc (length m))"
  by (auto simp: find_key_def lower_bound_Cons Let_def)

lemma find_key_map_of:
  "sorted_keys m \<Longrightarrow>
   find_key m k = (case map_of m k of None \<Rightarrow> length m | Some v \<Rightarrow> lower_bound m k)"
proof (induction m)
  case Nil
  then show ?case by (simp add: find_key_def lower_bound_def)
next
  case (Cons kv m)
  then have IH: "find_key m k = (case map_of m k of None \<Rightarrow> length m | Some v \<Rightarrow> lower_bound m k)"
    by (simp add: sorted_keys_Cons)
  show ?case
  proof (cases "fst kv < k")
    case True
    then show ?thesis using Cons.prems IH lower_bound_le [of m k]
      by (cases kv) (auto simp: find_key_Cons lower_bound_Cons split: option.splits)
  next
    case False
    then show ?thesis using Cons.prems sorted_keys_map_of_None [OF Cons.prems False]
      by (cases kv) (auto simp: find_key_Cons lower_bound_Cons split: option.splits)
  qed
qed


lemma nth_lower_bound:
  "sorted_keys m \<Longrightarrow> map_of m k = Some v \<Longrightarrow>
   lower_bound m k < length m \<and> m ! lower_bound m k = (k, v)"
proof (induction m)
  case Nil
  then show ?case by simp
next
  case (Cons kv m)
  show ?case
  proof (cases "fst kv < k")
    case True
    then show ?thesis using Cons
      by (cases kv) (auto simp: lower_bound_Cons sorted_keys_Cons split: if_splits)
  next
    case False
    then show ?thesis using Cons.prems sorted_keys_map_of_None [OF Cons.prems(1) False]
      by (cases kv) (auto simp: lower_bound_Cons split: if_splits)
  qed
qed

lemma MemberPtr_map_of: "sorted_keys (mMap ob) \<Longrightarrow> MemberPtr k ob = map_of (mMap ob) k"
  using nth_lower_bound [of "mMap ob" k]
  by (auto simp: MemberPtr_def find_key_map_of Let_def split: option.splits)


lemma HasMember_map_of: "sorted_keys (mMap ob) \<Longrightarrow> HasMember k ob \<longleftrightarrow> map_of (mMap ob) k \<noteq> None"
  using nth_lower_bound [of "mMap ob" k]
  by (auto simp: HasMember_def find_key_map_of Let_def split: option.splits)

lemma insert_kv_Cons:
  "insert_kv (kv # m) (k, v) =
     (if fst kv < k then (case insert_kv m (k, v) of (m', it, added) \<Rightarrow> (kv # m', Suc it, added))
      else if k < fst kv then ((k, v) # kv # m, 0, True)
      else (kv # m, 0, False))"
  by (auto simp: insert_kv_def lower_bound_Cons Let_def)

lemma insert_kv_absent:
  "sorted_keys m \<Longrightarrow> map_of m k = None \<Longrightarrow>
   \<exists>m' it. insert_kv m (k, v) = (m', it, True) \<and> sorted_keys m' \<and> it < length m'
     \<and> m' ! it = (k, v) \<and> map_of m' = (map_of m)(k \<mapsto> v) \<and> set m' = insert (k, v) (set m)"
proof (induction m)
  case Nil
  then show ?case by (auto simp: insert_kv_def lower_bound_def sorted_keys_def)
next
  case (Cons kv m)
  obtain a b where kv: "kv = (a, b)" by (cases kv)
  from Cons.prems kv have ne: "a \<noteq> k" and none: "map_of m k = None"
    by (auto split: if_splits)
  show ?case
  proof (cases "a < k")
    case True
    from Cons.prems(1) have sm: "sorted_keys m"
      by (simp add: sorted_keys_Cons)
    from Cons.IH [OF sm none] obtain m' it where
      i: "insert_kv m (k, v) = (m', it, True)" "sorted_keys m'" "it < length m'"
         "m' ! it = (k, v)" "map_of m' = (map_of m)(k \<mapsto> v)" "set m' = insert (k, v) (set m)"
      by blast
    then show ?thesis using True Cons.prems(1) ne kv
      by (auto simp: insert_kv_Cons sorted_keys_Cons fun_upd_twist)
  next
    case False
    then have "k < a" using ne by auto
    then show ?thesis using False Cons.prems(1) kv ne
      by (auto simp: insert_kv_Cons sorted_keys_Cons)
  qed
qed

lemma erase_at_Cons: "erase_at (x # xs) (Suc i) = x # erase_at xs i" "erase_at (x # xs) 0 = xs"
  by (simp_all add: erase_at_def)

lemma erase_present:
  "sorted_keys m \<Longrightarrow> map_of m k = Some v \<Longrightarrow>
   sorted_keys (erase_at m (lower_bound m k))
   \<and> map_of (erase_at m (lower_bound m k)) = (map_of m)(k := None)"
proof (induction m)
  case Nil
  then show ?case by simp
next
  case (Cons kv m)
  obtain a b where kv: "kv = (a, b)" by (cases kv)
  show ?case
  proof (cases "a < k")
    case True
    then have "map_of m k = Some v" using Cons.prems kv by (auto split: if_splits)
    with Cons.IH Cons.prems(1) have
      "sorted_keys (erase_at m (lower_bound m k))"
      "map_of (erase_at m (lower_bound m k)) = (map_of m)(k := None)"
      by (auto simp: sorted_keys_Cons)
    moreover have "set (erase_at m (lower_bound m k)) \<subseteq> set m"
      by (auto simp: erase_at_def dest: in_set_takeD in_set_dropD)
    ultimately show ?thesis using True Cons.prems(1) kv
      by (auto simp: lower_bound_Cons erase_at_Cons sorted_keys_Cons)
  next
    case False
    with sorted_keys_map_of_None [OF Cons.prems(1), of k] kv have n: "map_of m k = None" by simp
    with Cons.prems(2) kv have "a = k" by (auto split: if_splits)
    then show ?thesis using False Cons.prems(1) kv n
      by (auto simp: lower_bound_Cons erase_at_Cons sorted_keys_Cons)
  qed
qed

lemma store_present:
  "sorted_keys m \<Longrightarrow> it < length m \<Longrightarrow>
   sorted_keys (m[it := (fst (m ! it), v)])
   \<and> map_of (m[it := (fst (m ! it), v)]) = (map_of m)(fst (m ! it) \<mapsto> v)"
proof (induction m arbitrary: it)
  case Nil
  then show ?case by simp
next
  case (Cons kv m)
  obtain a b where kv: "kv = (a, b)" by (cases kv)
  show ?case
  proof (cases it)
    case 0
    then show ?thesis using Cons.prems kv by (auto simp: sorted_keys_Cons)
  next
    case (Suc j)
    then have j: "j < length m" using Cons.prems by simp
    from Cons.IH [OF _ j] Cons.prems(1) have
      IH: "sorted_keys (m[j := (fst (m ! j), v)])"
          "map_of (m[j := (fst (m ! j), v)]) = (map_of m)(fst (m ! j) \<mapsto> v)"
      by (auto simp: sorted_keys_Cons)
    have "a < fst (m ! j)" using Cons.prems(1) j kv by (auto simp: sorted_keys_Cons)
    moreover have "\<forall>x \<in> set (m[j := (fst (m ! j), v)]). a < fst x"
      using Cons.prems(1) j kv by (auto simp: sorted_keys_Cons dest!: set_update_subset_insert [THEN subsetD])
    ultimately show ?thesis using Suc IH kv
      by (auto simp: sorted_keys_Cons fun_upd_twist)
  qed
qed


lemma UpdateMember_present:
  assumes "sorted_keys (mMap ob)" and "map_of (mMap ob) k = Some v"
  shows "UpdateMember k ob = (ObjectPayload (mMap ob) (mModCount ob + 1), lower_bound (mMap ob) k)"
  using assms nth_lower_bound [OF assms]
  by (simp add: UpdateMember_def find_key_map_of Let_def)

lemma UpdateMember_absent:
  assumes "sorted_keys (mMap ob)" and "map_of (mMap ob) k = None"
  shows "\<exists>m' it. UpdateMember k ob = (ObjectPayload m' (mModCount ob + 1), it)
           \<and> sorted_keys m' \<and> it < length m' \<and> m' ! it = (k, VNull)
           \<and> map_of m' = (map_of (mMap ob))(k \<mapsto> VNull)"
  using assms insert_kv_absent [OF assms, of VNull]
  by (auto simp: UpdateMember_def find_key_map_of Let_def)

lemma UpdateMember_store:
  assumes s: "sorted_keys (mMap ob)" and u: "UpdateMember k ob = (ob1, it)"
  shows "sorted_keys (mMap (store_member ob1 it v))"
    and "map_of (mMap (store_member ob1 it v)) = (map_of (mMap ob))(k \<mapsto> v)"
    and "mModCount (store_member ob1 it v) = mModCount ob + 1"
    and "snd (mMap ob1 ! it) = (case map_of (mMap ob) k of None \<Rightarrow> VNull | Some x \<Rightarrow> x)"
proof -
  have "sorted_keys (mMap ob1) \<and> it < length (mMap ob1) \<and> fst (mMap ob1 ! it) = k
        \<and> snd (mMap ob1 ! it) = (case map_of (mMap ob) k of None \<Rightarrow> VNull | Some x \<Rightarrow> x)
        \<and> (map_of (mMap ob1))(k \<mapsto> v) = (map_of (mMap ob))(k \<mapsto> v)
        \<and> mModCount ob1 = mModCount ob + 1"
  proof (cases "map_of (mMap ob) k")
    case None
    from UpdateMember_absent [OF s None] u show ?thesis using None by auto
  next
    case (Some x)
    from UpdateMember_present [OF s Some] u nth_lower_bound [OF s Some] s show ?thesis
      using Some by auto
  qed
  then show "sorted_keys (mMap (store_member ob1 it v))"
    and "map_of (mMap (store_member ob1 it v)) = (map_of (mMap ob))(k \<mapsto> v)"
    and "mModCount (store_member ob1 it v) = mModCount ob + 1"
    and "snd (mMap ob1 ! it) = (case map_of (mMap ob) k of None \<Rightarrow> VNull | Some x \<Rightarrow> x)"
    using store_present [of "mMap ob1" it v] by (auto simp: store_member_def)
qed

lemma RemoveMember_map_of:
  assumes s: "sorted_keys (mMap ob)"
  shows "sorted_keys (mMap (fst (RemoveMember k ob)))"
    and "map_of (mMap (fst (RemoveMember k ob))) = (map_of (mMap ob))(k := None)"
proof -
  have "sorted_keys (mMap (fst (RemoveMember k ob)))
        \<and> map_of (mMap (fst (RemoveMember k ob))) = (map_of (mMap ob))(k := None)"
  proof (cases "map_of (mMap ob) k")
    case None
    then have "(map_of (mMap ob))(k := None) = map_of (mMap ob)"
      by (simp add: fun_upd_idem_iff)
    then show ?thesis using s None
      by (simp add: RemoveMember_def find_key_map_of Let_def)
  next
    case (Some v)
    then show ?thesis using s nth_lower_bound [OF s Some] erase_present [OF s Some]
      by (simp add: RemoveMember_def find_key_map_of Let_def)
  qed
  then show "sorted_keys (mMap (fst (RemoveMember k ob)))"
    and "map_of (mMap (fst (RemoveMember k ob))) = (map_of (mMap ob))(k := None)"
    by simp_all
qed

lemma merge_step_map_of:
  assumes s: "sorted_keys (mMap ob)"
  shows "sorted_keys (mMap (merge_step ob (k, v)))"
    and "map_of (mMap (merge_step ob (k, v))) =
           (if IsNull v then (map_of (mMap ob))(k := None)
            else (map_of (mMap ob))(k \<mapsto> Merge (case map_of (mMap ob) k of None \<Rightarrow> VNull | Some x \<Rightarrow> x) v))"
proof -
  obtain ob1 it where u: "UpdateMember k ob = (ob1, it)" by (cases "UpdateMember k ob")
  show "sorted_keys (mMap (merge_step ob (k, v)))"
    using RemoveMember_map_of(1) [OF s] UpdateMember_store(1) [OF s u] u
    by (simp add: merge_step_def)
  show "map_of (mMap (merge_step ob (k, v))) =
           (if IsNull v then (map_of (mMap ob))(k := None)
            else (map_of (mMap ob))(k \<mapsto> Merge (case map_of (mMap ob) k of None \<Rightarrow> VNull | Some x \<Rightarrow> x) v))"
    using RemoveMember_map_of(2) [OF s] UpdateMember_store(2,4) [OF s u] u
    by (simp add: merge_step_def)
qed

lemma MergeMembers_Cons: "MergeMembers ob (nv # rest) = MergeMembers (merge_step ob nv) rest"
  by (simp add: merge_step_def)

lemma MergeMembers_map_of:
  "sorted_keys (mMap ob) \<Longrightarrow> distinct (map fst rest) \<Longrightarrow>
   sorted_keys (mMap (MergeMembers ob rest)) \<and>
   map_of (mMap (MergeMembers ob rest)) k =
     (case map_of rest k of
        None \<Rightarrow> map_of (mMap ob) k
      | Some v \<Rightarrow>
          if IsNull v then None
          else Some (Merge (case map_of (mMap ob) k of None \<Rightarrow> VNull | Some x \<Rightarrow> x) v))"
proof (induction rest arbitrary: ob)
  case Nil
  then show ?case by simp
next
  case (Cons nv rest)
  obtain a b where nv: "nv = (a, b)" by (cases nv)
  have s: "sorted_keys (mMap (merge_step ob (a, b)))"
    using merge_step_map_of(1) [OF Cons.prems(1)] .
  have d: "distinct (map fst rest)" and nin: "a \<notin> fst ` set rest"
    using Cons.prems(2) nv by auto
  have none: "map_of rest a = None"
    using nin by (simp add: map_of_eq_None_iff)
  show ?case
    using Cons.IH [OF s d] merge_step_map_of(2) [OF Cons.prems(1), of a b] nv none
    by (auto simp: MergeMembers_Cons simp del: MergeMembers.simps split: option.splits)
qed


lemma sorted_keys_distinct: "sorted_keys m \<Longrightarrow> distinct (map fst m)"
  by (simp add: sorted_keys_def strict_sorted_iff)

subsection \<open>Value::Merge\<close>

lemma Merge_not_both_objects:
  "\<not> IsNull overrides \<Longrightarrow> \<not> (IsObject this \<and> IsObject overrides) \<Longrightarrow>
   Merge this overrides = overrides"
  by (cases this; cases overrides) (simp_all add: IsNull_def IsObject_def Value_assign_def)

lemma Merge_source_form:
  "Merge this overrides =
     (if IsNull overrides then this
      else if \<not> IsObject overrides \<or> \<not> IsObject this then Value_assign this overrides
      else (case (this, overrides) of
              (VObject mObject, VObject ov) \<Rightarrow> VObject (ObjectValue_Merge mObject ov)))"
  apply (cases this; cases overrides)
  apply (simp_all add: IsNull_def IsObject_def ObjectValue_Merge_def)
  subgoal for a b by (cases b) simp
  done



subsection \<open>The modification counter\<close>

lemma UpdateMember_modCount: "mModCount (fst (UpdateMember key ob)) = mModCount ob + 1"
  by (simp add: UpdateMember_def Let_def split: prod.splits)

lemma UpdateMember_existing: "HasMember key ob \<Longrightarrow> mMap (fst (UpdateMember key ob)) = mMap ob"
  by (auto simp: UpdateMember_def HasMember_def Let_def split: if_splits)

lemma SetMember_modCount: "mModCount (SetMember key v ob) = mModCount ob + 2"
proof -
  obtain ob1 it where 1: "UpdateMember key ob = (ob1, it)"
    by (cases "UpdateMember key ob")
  with UpdateMember_modCount [of key ob] have "mModCount ob1 = mModCount ob + 1"
    by simp
  with 1 show ?thesis by (simp add: SetMember_def store_member_def)
qed

lemma RemoveMember_modCount:
  "(snd (RemoveMember key ob) \<longrightarrow> mModCount (fst (RemoveMember key ob)) = mModCount ob + 1)
   \<and> (\<not> snd (RemoveMember key ob) \<longrightarrow> fst (RemoveMember key ob) = ob)"
  by (simp add: RemoveMember_def Let_def)

text \<open>
  Claim C10: \<open>ObjectValue::UpdateMember(key)\<close> adds one to \<open>mModCount\<close> whether or not the
  key exists, and leaves the members as they are when it exists; \<open>SetMember\<close> adds two
  on every call; and whenever \<open>UpdateMember\<close>, \<open>SetMember\<close> or \<open>RemoveMember\<close> changes the
  members, the counter changes. The counter is a 32-bit word: the additions wrap.
\<close>

theorem modCount_advances:
  "mModCount (fst (UpdateMember key ob)) = mModCount ob + 1
   \<and> (HasMember key ob \<longrightarrow> mMap (fst (UpdateMember key ob)) = mMap ob)
   \<and> mModCount (SetMember key v ob) = mModCount ob + 2
   \<and> (mMap (fst (UpdateMember key ob)) \<noteq> mMap ob \<longrightarrow>
        mModCount (fst (UpdateMember key ob)) \<noteq> mModCount ob)
   \<and> (mMap (SetMember key v ob) \<noteq> mMap ob \<longrightarrow> mModCount (SetMember key v ob) \<noteq> mModCount ob)
   \<and> (mMap (fst (RemoveMember key ob)) \<noteq> mMap ob \<longrightarrow>
        mModCount (fst (RemoveMember key ob)) \<noteq> mModCount ob)"
  using RemoveMember_modCount [of key ob]
  by (cases "snd (RemoveMember key ob)")
    (simp_all add: UpdateMember_modCount UpdateMember_existing SetMember_modCount)


theorem modCount_advances_witness:
  "HasMember ''a'' (ObjectPayload [(''a'', VInt 1)] 7)
   \<and> mMap (fst (UpdateMember ''a'' (ObjectPayload [(''a'', VInt 1)] 7))) = [(''a'', VInt 1)]
   \<and> mModCount (fst (UpdateMember ''a'' (ObjectPayload [(''a'', VInt 1)] 7))) = 8
   \<and> mModCount (SetMember ''a'' (VInt 1) (ObjectPayload [(''a'', VInt 1)] 7)) = 9
   \<and> mMap (fst (RemoveMember ''a'' (ObjectPayload [(''a'', VInt 1)] 7))) \<noteq> [(''a'', VInt 1)]
   \<and> mModCount (fst (RemoveMember ''a'' (ObjectPayload [(''a'', VInt 1)] 7))) \<noteq> 7"
  using modCount_advances [of "''a''" "ObjectPayload [(''a'', VInt 1)] 7" "VInt 1"]
  by (simp add: HasMember_def find_key_def lower_bound_def RemoveMember_def erase_at_def)

subsection \<open>Copies of objects\<close>

lemma nth_new_ObjectValue:
  "new_ObjectValue h ob = (h', p) \<Longrightarrow> p = length h \<and> h' ! p = ob \<and> (\<forall>q < length h. h' ! q = h ! q)"
  by (auto simp: new_ObjectValue_def nth_append)

lemma mutate_other: "u \<noteq> v \<Longrightarrow> mutate h v m ! u = h ! u"
  by (cases m) (simp_all add: Value_SetMember_def Value_RemoveMember_def Value_UpdateMember_def split: prod.splits)

lemma mutations_other: "u \<noteq> v \<Longrightarrow> mutations h v ms ! u = h ! u"
  by (induction ms arbitrary: h) (simp_all add: mutate_other)

lemma length_mutate: "length (mutate h v m) = length h"
  by (cases m) (simp_all add: Value_SetMember_def Value_RemoveMember_def Value_UpdateMember_def split: prod.splits)

lemma length_mutations: "length (mutations h v ms) = length h"
  by (induction ms arbitrary: h) (simp_all add: length_mutate)

text \<open>
  Claim C5: let \<open>u\<close> be a Value of type object and \<open>v\<close> its copy. The copy has the members
  and the counter of \<open>u\<close> in a payload of its own; after any sequence \<open>ms\<close> of member
  insertions, replacements and removals on \<open>v\<close> the payload of \<open>u\<close>, members and counter,
  is what it was; and a further \<open>SetMember\<close> on \<open>v\<close> adds two to the counter of \<open>v\<close>, a
  \<open>RemoveMember\<close> that removes a member adds one, an \<open>UpdateMember\<close> adds one.
\<close>

theorem object_copy_is_deep:
  assumes "u < length h" and "Value_copy_object h u = (h', v)"
  shows "v \<noteq> u
     \<and> mMap (h' ! v) = mMap (h ! u) \<and> mModCount (h' ! v) = mModCount (h ! u)
     \<and> mutations h' v ms ! u = h ! u
     \<and> mModCount (Value_SetMember (mutations h' v ms) v key x ! v)
         = mModCount (mutations h' v ms ! v) + 2
     \<and> (snd (Value_RemoveMember (mutations h' v ms) v key) \<longrightarrow>
          mModCount (fst (Value_RemoveMember (mutations h' v ms) v key) ! v)
            = mModCount (mutations h' v ms ! v) + 1)
     \<and> mModCount (fst (Value_UpdateMember (mutations h' v ms) v key) ! v)
         = mModCount (mutations h' v ms ! v) + 1"
proof -
  from assms have v: "v = length h" and hv: "h' ! v = ObjectPayload (mMap (h ! u)) (mModCount (h ! u))"
    and hu: "h' ! u = h ! u" and len: "length h' = Suc (length h)"
    by (auto simp: Value_copy_object_def new_ObjectValue_def nth_append)
  from v assms(1) have ne: "u \<noteq> v" by simp
  have lv: "v < length (mutations h' v ms)"
    using v len by (simp add: length_mutations)
  have 1: "mutations h' v ms ! u = h ! u"
    using mutations_other [OF ne] hu by simp
  have 2: "mModCount (Value_SetMember (mutations h' v ms) v key x ! v)
         = mModCount (mutations h' v ms ! v) + 2"
    using lv by (simp add: Value_SetMember_def SetMember_modCount)
  have 3: "snd (Value_RemoveMember (mutations h' v ms) v key) \<longrightarrow>
          mModCount (fst (Value_RemoveMember (mutations h' v ms) v key) ! v)
            = mModCount (mutations h' v ms ! v) + 1"
    using lv RemoveMember_modCount [of key "mutations h' v ms ! v"]
    by (simp add: Value_RemoveMember_def case_prod_beta)
  have 4: "mModCount (fst (Value_UpdateMember (mutations h' v ms) v key) ! v)
         = mModCount (mutations h' v ms ! v) + 1"
    using lv by (simp add: Value_UpdateMember_def case_prod_beta UpdateMember_modCount)
  show ?thesis using ne hv 1 2 3 4 by simp
qed

theorem object_copy_is_deep_witness:
  "(0 :: nat) < length [ObjectPayload [(''a'', VInt 1)] 3]
   \<and> Value_copy_object [ObjectPayload [(''a'', VInt 1)] 3] 0
       = ([ObjectPayload [(''a'', VInt 1)] 3, ObjectPayload [(''a'', VInt 1)] 3], 1)
   \<and> mutations [ObjectPayload [(''a'', VInt 1)] 3, ObjectPayload [(''a'', VInt 1)] 3] 1
         [Insert_or_replace ''b'' (VInt 2), Remove ''a''] ! 0
       = ObjectPayload [(''a'', VInt 1)] 3
   \<and> mutations [ObjectPayload [(''a'', VInt 1)] 3, ObjectPayload [(''a'', VInt 1)] 3] 1
         [Insert_or_replace ''b'' (VInt 2), Remove ''a''] ! 1
       = ObjectPayload [(''b'', VInt 2)] 6"
  using object_copy_is_deep [of 0 "[ObjectPayload [(''a'', VInt 1)] 3]"
      "[ObjectPayload [(''a'', VInt 1)] 3, ObjectPayload [(''a'', VInt 1)] 3]" 1
      "[Insert_or_replace ''b'' (VInt 2), Remove ''a'']" "''c''" VNull]
  by (simp add: Value_copy_object_def new_ObjectValue_def Value_SetMember_def
      Value_RemoveMember_def SetMember_def UpdateMember_def RemoveMember_def find_key_def
      lower_bound_def insert_kv_def store_member_def erase_at_def Value_assign_def)

text \<open>
  The other constructor, \<^verbatim>\<open>Value(ObjectValue*)\<close>, shares the payload: there a mutation of
  \<open>v\<close> is a mutation of \<open>u\<close>.
\<close>

lemma shared_object_is_mutated:
  assumes "u < length h" and "Value_share_object h u = (h', v)"
  shows "v = u \<and> Value_SetMember h' v key x ! u = SetMember key x (h ! u)
     \<and> mModCount (Value_SetMember h' v key x ! u) = mModCount (h ! u) + 2"
  using assms by (auto simp: Value_share_object_def Value_SetMember_def SetMember_modCount)

section \<open>Properties of the directives\<close>

text \<open>
  Claim C9 says that a %YAML directive whose version is not 1.1 makes the parser fail with
  \<open>found incompatible YAML document\<close>. In a document that has \<open>%YAML 1.1\<close> and then
  \<open>%YAML 1.2\<close>, the second directive is not 1.1 and the error is the one for a duplicate:
  the test for a duplicate comes first.
\<close>

theorem version_directive_counterexample:
  "yaml_parser_process_directives []
     [YAML_VERSION_DIRECTIVE_TOKEN 1 1, YAML_VERSION_DIRECTIVE_TOKEN 1 2, YAML_DOCUMENT_START_TOKEN]
   = Inl (YAML_PARSER_ERROR ''found duplicate %YAML directive'')"
  by (simp add: yaml_parser_process_directives_def)

lemma process_directives_loop_accepts:
  "process_directives_loop vd tds ptds tokens = Inr (vd', tds', ptds', tokens') \<Longrightarrow>
   (case vd of
      None \<Rightarrow> (version_directives tokens = [] \<and> vd' = None)
                \<or> (version_directives tokens = [(1, 1)] \<and> vd' = Some (1, 1))
    | Some x \<Rightarrow> version_directives tokens = [] \<and> vd' = vd)"
proof (induction vd tds ptds tokens rule: process_directives_loop.induct)
  case (2 version_directive tag_directives parser_tag_directives major minor tokens)
  then show ?case by (auto split: if_splits option.splits)
next
  case (3 version_directive tag_directives parser_tag_directives handle prefix tokens)
  then show ?case by (auto split: sum.splits option.splits)
qed (auto split: option.splits)

text \<open>
  Claim C9, amended: when the loop reaches a %YAML directive and no %YAML directive of
  the document has been accepted, a version other than 1.1 fails with
  \<open>found incompatible YAML document\<close> and the version 1.1 is accepted; when one has been
  accepted, the directive fails with \<open>found duplicate %YAML directive\<close>, whatever its
  version. So the directives of a document that are accepted hold no %YAML directive, or
  one, which is 1.1.
\<close>

theorem version_directive_checks:
  "process_directives_loop None tds ptds (YAML_VERSION_DIRECTIVE_TOKEN major minor # tokens) =
     (if major \<noteq> 1 \<or> minor \<noteq> 1 then Inl (YAML_PARSER_ERROR ''found incompatible YAML document'')
      else process_directives_loop (Some (major, minor)) tds ptds tokens)
   \<and> process_directives_loop (Some vd) tds ptds (YAML_VERSION_DIRECTIVE_TOKEN major minor # tokens) =
       Inl (YAML_PARSER_ERROR ''found duplicate %YAML directive'')
   \<and> (yaml_parser_process_directives ptds tokens = Inr (vd', tds', ptds', tokens') \<longrightarrow>
        (version_directives tokens = [] \<and> vd' = None)
        \<or> (version_directives tokens = [(1, 1)] \<and> vd' = Some (1, 1)))"
proof -
  have "yaml_parser_process_directives ptds tokens = Inr (vd', tds', ptds', tokens') \<longrightarrow>
        (version_directives tokens = [] \<and> vd' = None)
        \<or> (version_directives tokens = [(1, 1)] \<and> vd' = Some (1, 1))"
  proof
    assume a: "yaml_parser_process_directives ptds tokens = Inr (vd', tds', ptds', tokens')"
    then obtain p where "process_directives_loop None [] ptds tokens = Inr (vd', tds', p, tokens')"
      by (auto simp: yaml_parser_process_directives_def split: sum.splits)
    from process_directives_loop_accepts [OF this]
    show "(version_directives tokens = [] \<and> vd' = None)
        \<or> (version_directives tokens = [(1, 1)] \<and> vd' = Some (1, 1))"
      by simp
  qed
  then show ?thesis by simp
qed

theorem version_directive_checks_witness:
  "yaml_parser_process_directives []
     [YAML_TAG_DIRECTIVE_TOKEN ''!e!'' ''tag:e,2000:'', YAML_VERSION_DIRECTIVE_TOKEN 1 2,
      YAML_DOCUMENT_START_TOKEN]
     = Inl (YAML_PARSER_ERROR ''found incompatible YAML document'')
   \<and> yaml_parser_process_directives []
     [YAML_VERSION_DIRECTIVE_TOKEN 1 1, YAML_DOCUMENT_START_TOKEN]
     = Inr (Some (1, 1), [], default_tag_directives, [YAML_DOCUMENT_START_TOKEN])
   \<and> version_directives [YAML_VERSION_DIRECTIVE_TOKEN 1 1, YAML_DOCUMENT_START_TOKEN] = [(1, 1)]"
  using version_directive_checks [of "[]" "[]" 1 1 "[YAML_DOCUMENT_START_TOKEN]" "(1, 1)"
      "Some (1, 1)" "[]" default_tag_directives "[YAML_DOCUMENT_START_TOKEN]"]
  by (simp add: yaml_parser_process_directives_def yaml_parser_append_tag_directive_def
      default_tag_directives_def)

section \<open>Properties of the event binder\<close>

subsection \<open>Plain scalars\<close>




subsection \<open>The merge key\<close>

text \<open>
  A \<open><<\<close> entry whose value is an alias of an anchored mapping merges that mapping into
  the object built so far with \<^verbatim>\<open>ObjectValue::Merge\<close>, the merged mapping being the
  \<open>overrides\<close>.
\<close>

lemma ParseMapping_merge_alias:
  assumes "events rdr = YAML_SCALAR_EVENT a ''<<'' st # YAML_ALIAS_EVENT d # es"
    and "mAnchors rdr d = Some (VObject m)"
  shows "ParseMapping (Suc (Suc n)) strtod rdr (Some ob) =
         ParseMapping (Suc n) strtod (rdr\<lparr>events := es\<rparr>) (Some (ObjectValue_Merge ob m))"
  using assms
  by (simp add: yaml_parser_parse_def Value_assign_def merge_key_value_def)

text \<open>
  So a member of the merged mapping that is neither null nor an object is the member of
  the result, whatever the object held under that key.
\<close>

lemma merged_member_overrides:
  assumes "sorted_keys (mMap ob)" and "sorted_keys (mMap m)"
    and "MemberPtr key m = Some v" and "\<not> IsNull v" and "\<not> IsObject v"
  shows "MemberPtr key (ObjectValue_Merge ob m) = Some v"
proof -
  have d: "distinct (map fst (mMap m))"
    using assms(2) by (rule sorted_keys_distinct)
  have s: "sorted_keys (mMap (MergeMembers ob (mMap m)))"
    using MergeMembers_map_of [OF assms(1) d] by simp
  have "map_of (mMap m) key = Some v"
    using assms(2,3) by (simp add: MemberPtr_map_of)
  then have "map_of (mMap (MergeMembers ob (mMap m))) key =
        Some (Merge (case map_of (mMap ob) key of None \<Rightarrow> VNull | Some x \<Rightarrow> x) v)"
    using MergeMembers_map_of [OF assms(1) d, of key] assms(4) by simp
  moreover have "Merge x v = v" for x
    using Merge_not_both_objects [of v x] assms(4,5) by simp
  ultimately show ?thesis
    using s by (simp add: ObjectValue_Merge_def MemberPtr_map_of)
qed

text \<open>
  Claim C1 says that a key of the mapping keeps its own value when the merged mapping has
  it too, wherever the \<open><<\<close> entry stands. The events below are those of
  \<^verbatim>\<open>base: &b {size: 1}\<close> and \<^verbatim>\<open>item: {size: 2, <<: *b}\<close> in block style: the \<open><<\<close> entry
  comes after \<open>size: 2\<close>, and \<open>item.size\<close> is 1.
\<close>

theorem merge_key_overwrites_existing_key:
  "LoadYaml 30 strtod
     [YAML_STREAM_START_EVENT, YAML_DOCUMENT_START_EVENT, YAML_MAPPING_START_EVENT None,
      YAML_SCALAR_EVENT None ''base'' YAML_PLAIN_SCALAR_STYLE,
      YAML_MAPPING_START_EVENT (Some ''b''),
      YAML_SCALAR_EVENT None ''size'' YAML_PLAIN_SCALAR_STYLE,
      YAML_SCALAR_EVENT None ''1'' YAML_PLAIN_SCALAR_STYLE,
      YAML_MAPPING_END_EVENT,
      YAML_SCALAR_EVENT None ''item'' YAML_PLAIN_SCALAR_STYLE,
      YAML_MAPPING_START_EVENT None,
      YAML_SCALAR_EVENT None ''size'' YAML_PLAIN_SCALAR_STYLE,
      YAML_SCALAR_EVENT None ''2'' YAML_PLAIN_SCALAR_STYLE,
      YAML_SCALAR_EVENT None ''<<'' YAML_PLAIN_SCALAR_STYLE,
      YAML_ALIAS_EVENT ''b'',
      YAML_MAPPING_END_EVENT,
      YAML_MAPPING_END_EVENT, YAML_DOCUMENT_END_EVENT, YAML_STREAM_END_EVENT]
   = Some (Inr (True,
       VObject (ObjectPayload
         [(''base'', VObject (ObjectPayload [(''size'', VInt 1)] 1)),
          (''item'', VObject (ObjectPayload [(''size'', VInt 1)] 2))] 2)))"
  by code_simp

text \<open>With the \<open><<\<close> entry first, the own value is written after the merge and stays.\<close>

lemma merge_key_first_keeps_own_key:
  "LoadYaml 30 strtod
     [YAML_STREAM_START_EVENT, YAML_DOCUMENT_START_EVENT, YAML_MAPPING_START_EVENT None,
      YAML_SCALAR_EVENT None ''base'' YAML_PLAIN_SCALAR_STYLE,
      YAML_MAPPING_START_EVENT (Some ''b''),
      YAML_SCALAR_EVENT None ''size'' YAML_PLAIN_SCALAR_STYLE,
      YAML_SCALAR_EVENT None ''1'' YAML_PLAIN_SCALAR_STYLE,
      YAML_MAPPING_END_EVENT,
      YAML_SCALAR_EVENT None ''item'' YAML_PLAIN_SCALAR_STYLE,
      YAML_MAPPING_START_EVENT None,
      YAML_SCALAR_EVENT None ''<<'' YAML_PLAIN_SCALAR_STYLE,
      YAML_ALIAS_EVENT ''b'',
      YAML_SCALAR_EVENT None ''size'' YAML_PLAIN_SCALAR_STYLE,
      YAML_SCALAR_EVENT None ''2'' YAML_PLAIN_SCALAR_STYLE,
      YAML_MAPPING_END_EVENT,
      YAML_MAPPING_END_EVENT, YAML_DOCUMENT_END_EVENT, YAML_STREAM_END_EVENT]
   = Some (Inr (True,
       VObject (ObjectPayload
         [(''base'', VObject (ObjectPayload [(''size'', VInt 1)] 1)),
          (''item'', VObject (ObjectPayload [(''size'', VInt 2)] 2))] 2)))"
  by code_simp

section \<open>Properties of the block scalars\<close>













lemma block_scalar_folded_strip_example:
  "yaml_parser_scan_block_scalar 0
     ([0x3E, 0x2D, 0x0A,
       0x20, 0x20, 0x6F, 0x6E, 0x65, 0x0A,
       0x20, 0x20, 0x74, 0x77, 0x6F, 0x0A,
       0x0A,
       0x20, 0x20, 0x74, 0x68, 0x72, 0x65, 0x65, 0x0A], 0) False =
     Inr (([0x6F, 0x6E, 0x65, 0x20, 0x74, 0x77, 0x6F, 0x0A, 0x74, 0x68, 0x72, 0x65, 0x65],
           YAML_FOLDED_SCALAR_STYLE), ([], 0))"
  by code_simp

lemma block_scalar_clip_example:
  "yaml_parser_scan_block_scalar (- 1) ([0x7C, 0x0A, 0x20, 0x61, 0x0A, 0x0A, 0x0A], 0) True =
     Inr (([0x61, 0x0A], YAML_LITERAL_SCALAR_STYLE), ([], 0))"
  by code_simp

end
